theory Spec2Isabelle
  imports Complex_Main "HOL-Library.Word" "HOL-Library.Sublist"
begin

unbundle bit_operations_syntax

section \<open>Data of the Vulkan renderer\<close>

text \<open>
  The renderer of \<^verbatim>\<open>src/engine/render/VulkanRenderer.cpp\<close> talks to the Vulkan
  driver through opaque handles and plain C structs. Handles are modelled as numbers
  (\<open>0\<close> is \<^verbatim>\<open>VK_NULL_HANDLE\<close>), \<^verbatim>\<open>uint32_t\<close> as \<open>32 word\<close> (so \<open>+\<close> wraps),
  C enums as \<open>int\<close>. The enum values are the ones of the Vulkan headers the
  repository includes; only their distinctness matters below.
\<close>

type_synonym u32 = "32 word"
type_synonym handle = nat
type_synonym VkResult = int
type_synonym VkFormat = int
type_synonym VkColorSpaceKHR = int
type_synonym VkPresentModeKHR = int
type_synonym VkSharingMode = int
type_synonym VkBool32 = u32

definition VK_NULL_HANDLE :: handle where
  "VK_NULL_HANDLE = 0"

definition VK_SUCCESS :: VkResult where
  "VK_SUCCESS = 0"

definition VK_SUBOPTIMAL_KHR :: VkResult where
  "VK_SUBOPTIMAL_KHR = 1000001003"

definition VK_ERROR_OUT_OF_DATE_KHR :: VkResult where
  "VK_ERROR_OUT_OF_DATE_KHR = - 1000001004"

definition VK_FORMAT_B8G8R8A8_SRGB :: VkFormat where
  "VK_FORMAT_B8G8R8A8_SRGB = 50"

definition VK_COLOR_SPACE_SRGB_NONLINEAR_KHR :: VkColorSpaceKHR where
  "VK_COLOR_SPACE_SRGB_NONLINEAR_KHR = 0"

definition VK_PRESENT_MODE_MAILBOX_KHR :: VkPresentModeKHR where
  "VK_PRESENT_MODE_MAILBOX_KHR = 1"

definition VK_PRESENT_MODE_FIFO_KHR :: VkPresentModeKHR where
  "VK_PRESENT_MODE_FIFO_KHR = 2"

definition VK_SHARING_MODE_EXCLUSIVE :: VkSharingMode where
  "VK_SHARING_MODE_EXCLUSIVE = 0"

definition VK_SHARING_MODE_CONCURRENT :: VkSharingMode where
  "VK_SHARING_MODE_CONCURRENT = 1"

definition VK_QUEUE_GRAPHICS_BIT :: u32 where
  "VK_QUEUE_GRAPHICS_BIT = 1"

definition VK_IMAGE_USAGE_COLOR_ATTACHMENT_BIT :: u32 where
  "VK_IMAGE_USAGE_COLOR_ATTACHMENT_BIT = 16"

definition VK_COMPOSITE_ALPHA_OPAQUE_BIT_KHR :: u32 where
  "VK_COMPOSITE_ALPHA_OPAQUE_BIT_KHR = 1"

definition VK_TRUE :: VkBool32 where
  "VK_TRUE = 1"

definition INT_MAX :: int where
  "INT_MAX = 2147483647"

record VkExtent2D =
  width :: u32
  height :: u32

record VkSurfaceFormatKHR =
  format :: VkFormat
  colorSpace :: VkColorSpaceKHR

record VkSurfaceCapabilitiesKHR =
  minImageCount :: u32
  maxImageCount :: u32
  currentExtent :: VkExtent2D
  minImageExtent :: VkExtent2D
  maxImageExtent :: VkExtent2D
  currentTransform :: u32

record VkQueueFamilyProperties =
  queueFlags :: u32

text \<open>\<^verbatim>\<open>struct QueueFamilyIndices\<close> of VulkanRenderer.hpp: two \<^verbatim>\<open>std::optional<uint32_t>\<close>.\<close>

record QueueFamilyIndices =
  graphicsFamily :: "u32 option"
  presentFamily :: "u32 option"

definition isComplete :: "QueueFamilyIndices \<Rightarrow> bool" where
  "isComplete indices \<longleftrightarrow> graphicsFamily indices \<noteq> None \<and> presentFamily indices \<noteq> None"

text \<open>
  What a call can end with instead of returning: a \<^verbatim>\<open>std::runtime_error\<close> thrown by the
  renderer (tagged with the function that throws it), the \<^verbatim>\<open>std::bad_optional_access\<close>
  of \<^verbatim>\<open>optional::value()\<close>, or undefined behaviour of C++ (a vector read out of range,
  \<^verbatim>\<open>std::clamp\<close> with an empty interval, signed overflow).
\<close>

datatype failure = Runtime_error string | Bad_optional_access | Undefined_behaviour

section \<open>Queue families\<close>

text \<open>
  \<^verbatim>\<open>findQueueFamilies(device)\<close>. The arguments are what the driver reports for the
  device: its queue families in enumeration order, and the answer of
  \<^verbatim>\<open>vkGetPhysicalDeviceSurfaceSupportKHR\<close> for each family index against the bound
  surface. The loop counter \<^verbatim>\<open>i\<close> is a C \<^verbatim>\<open>int\<close>; it is converted to
  \<^verbatim>\<open>uint32_t\<close> where it is stored or passed on. Beside the indices the model returns
  the number of families the loop examined.
\<close>

definition graphics_capable :: "VkQueueFamilyProperties \<Rightarrow> bool" where
  "graphics_capable queueFamily \<longleftrightarrow> queueFlags queueFamily AND VK_QUEUE_GRAPHICS_BIT \<noteq> 0"

fun findQueueFamilies_loop ::
  "VkQueueFamilyProperties list \<Rightarrow> (u32 \<Rightarrow> VkBool32) \<Rightarrow> int \<Rightarrow> QueueFamilyIndices
    \<Rightarrow> failure + QueueFamilyIndices \<times> nat" where
  "findQueueFamilies_loop [] presentSupport i indices = Inr (indices, nat i)"
| "findQueueFamilies_loop (queueFamily # rest) presentSupport i indices =
     (let indices1 = (if graphics_capable queueFamily
                      then indices\<lparr>graphicsFamily := Some (word_of_int i)\<rparr> else indices);
          indices2 = (if presentSupport (word_of_int i) \<noteq> 0
                      then indices1\<lparr>presentFamily := Some (word_of_int i)\<rparr> else indices1)
      in if isComplete indices2 then Inr (indices2, nat i + 1)
         else if i = INT_MAX then Inl Undefined_behaviour
         else findQueueFamilies_loop rest presentSupport (i + 1) indices2)"

definition findQueueFamilies ::
  "VkQueueFamilyProperties list \<Rightarrow> (u32 \<Rightarrow> VkBool32) \<Rightarrow> failure + QueueFamilyIndices \<times> nat" where
  "findQueueFamilies queueFamilies presentSupport =
     findQueueFamilies_loop queueFamilies presentSupport 0
       \<lparr>graphicsFamily = None, presentFamily = None\<rparr>"

section \<open>Choosing the swap chain's parameters\<close>

text \<open>
  \<^verbatim>\<open>chooseSwapSurfaceFormat\<close>: the first preferred entry, else \<^verbatim>\<open>availableFormats[0]\<close>,
  which is undefined behaviour on an empty vector.
\<close>

fun chooseSwapSurfaceFormat_loop :: "VkSurfaceFormatKHR list \<Rightarrow> VkSurfaceFormatKHR option" where
  "chooseSwapSurfaceFormat_loop [] = None"
| "chooseSwapSurfaceFormat_loop (availableFormat # rest) =
     (if format availableFormat = VK_FORMAT_B8G8R8A8_SRGB
         \<and> colorSpace availableFormat = VK_COLOR_SPACE_SRGB_NONLINEAR_KHR
      then Some availableFormat
      else chooseSwapSurfaceFormat_loop rest)"

definition chooseSwapSurfaceFormat :: "VkSurfaceFormatKHR list \<Rightarrow> failure + VkSurfaceFormatKHR" where
  "chooseSwapSurfaceFormat availableFormats =
     (case chooseSwapSurfaceFormat_loop availableFormats of
        Some availableFormat \<Rightarrow> Inr availableFormat
      | None \<Rightarrow> (case availableFormats of
                   [] \<Rightarrow> Inl Undefined_behaviour
                 | first # _ \<Rightarrow> Inr first))"

text \<open>\<^verbatim>\<open>chooseSwapPresentMode\<close>: mailbox if offered, else FIFO.\<close>

fun chooseSwapPresentMode :: "VkPresentModeKHR list \<Rightarrow> VkPresentModeKHR" where
  "chooseSwapPresentMode [] = VK_PRESENT_MODE_FIFO_KHR"
| "chooseSwapPresentMode (availablePresentMode # rest) =
     (if availablePresentMode = VK_PRESENT_MODE_MAILBOX_KHR then availablePresentMode
      else chooseSwapPresentMode rest)"

text \<open>
  \<^verbatim>\<open>std::clamp(v, lo, hi)\<close> on \<^verbatim>\<open>uint32_t\<close>: the standard leaves it undefined when
  \<^verbatim>\<open>hi < lo\<close>; otherwise \<^verbatim>\<open>v < lo ? lo : hi < v ? hi : v\<close>.
\<close>

definition clamp :: "u32 \<Rightarrow> u32 \<Rightarrow> u32 \<Rightarrow> failure + u32" where
  "clamp v lo hi =
     (if hi < lo then Inl Undefined_behaviour
      else Inr (if v < lo then lo else if hi < v then hi else v))"

text \<open>
  \<^verbatim>\<open>chooseSwapExtent(capabilities)\<close>. The first argument is what
  \<^verbatim>\<open>SDL_GetWindowSizeInPixels\<close> stores into the two \<^verbatim>\<open>int\<close>s; the
  \<^verbatim>\<open>static_cast<uint32_t>\<close> of each is \<open>word_of_int\<close>. The surface's current extent
  counts as undefined exactly when its width is \<^verbatim>\<open>UINT32_MAX\<close> (the height is not
  looked at).
\<close>

definition chooseSwapExtent :: "int \<times> int \<Rightarrow> VkSurfaceCapabilitiesKHR \<Rightarrow> failure + VkExtent2D" where
  "chooseSwapExtent windowSizeInPixels capabilities =
     (if width (currentExtent capabilities) \<noteq> - 1 then Inr (currentExtent capabilities)
      else
        (case clamp (word_of_int (fst windowSizeInPixels))
                (width (minImageExtent capabilities)) (width (maxImageExtent capabilities)) of
           Inl e \<Rightarrow> Inl e
         | Inr w \<Rightarrow>
             (case clamp (word_of_int (snd windowSizeInPixels))
                     (height (minImageExtent capabilities)) (height (maxImageExtent capabilities)) of
                Inl e \<Rightarrow> Inl e
              | Inr h \<Rightarrow> Inr \<lparr>width = w, height = h\<rparr>)))"

text \<open>
  The image count \<^verbatim>\<open>createSwapChain\<close> computes for \<^verbatim>\<open>createInfo.minImageCount\<close>
  (its local \<^verbatim>\<open>imageCount\<close>), in \<^verbatim>\<open>uint32_t\<close> arithmetic.
\<close>

definition imageCount :: "VkSurfaceCapabilitiesKHR \<Rightarrow> u32" where
  "imageCount capabilities =
     (let imageCount = minImageCount capabilities + 1
      in if maxImageCount capabilities > 0 \<and> imageCount > maxImageCount capabilities
         then maxImageCount capabilities else imageCount)"

section \<open>Single-precision arithmetic\<close>

text \<open>
  The viewport is computed in \<^verbatim>\<open>float\<close>, IEEE 754 binary32 with round to nearest, ties
  to even, one rounding per operation (no fused multiply-add and no wider intermediate
  format). A finite value is the rational it denotes, so \<open>round32\<close> maps the exact
  result of an operation to the nearest value with a 24-bit significand: a multiple of
  \<open>2^(e - 23)\<close> where \<open>e\<close> is the exponent of the exact result, of \<open>2^-149\<close> below the
  normal range, and an infinity when the rounded magnitude reaches \<open>2^128\<close>. The sign
  of zero is not kept: the zeros that arise below are all positive.
\<close>

datatype float32 = Finite rat | PosInf | NegInf | NaN

text \<open>\<open>flog2 n\<close> is the position of the leading bit of \<open>n\<close>.\<close>

fun flog2 :: "nat \<Rightarrow> nat" where
  "flog2 n = (if n < 2 then 0 else Suc (flog2 (n div 2)))"

declare flog2.simps [simp del]

text \<open>The binary exponent \<open>e\<close> of a positive rational: \<open>2^e \<le> a < 2^(e+1)\<close>.\<close>

definition exponent :: "rat \<Rightarrow> int" where
  "exponent a =
     (if 1 \<le> a then int (flog2 (nat \<lfloor>a\<rfloor>))
      else - int (Suc (flog2 (nat \<lceil>1 / a\<rceil> - 1))))"

definition pow2 :: "int \<Rightarrow> rat" where
  "pow2 e = (if 0 \<le> e then 2 ^ nat e else 1 / 2 ^ nat (- e))"

definition round_even :: "rat \<Rightarrow> int" where
  "round_even x =
     (let f = \<lfloor>x\<rfloor>; d = x - of_int f
      in if d < 1 / 2 then f else if 1 / 2 < d then f + 1
         else if even f then f else f + 1)"

definition round32 :: "rat \<Rightarrow> float32" where
  "round32 x =
     (if x = 0 then Finite 0
      else
        (let a = \<bar>x\<bar>;
             q = pow2 (max (exponent a) (- 126) - 23);
             m = of_int (round_even (a / q)) * q
         in if 2 ^ 128 \<le> m then (if 0 < x then PosInf else NegInf)
            else Finite (sgn x * m)))"

text \<open>\<^verbatim>\<open>static_cast<float>\<close> of a \<^verbatim>\<open>uint32_t\<close>.\<close>

definition float_of_u32 :: "u32 \<Rightarrow> float32" where
  "float_of_u32 n = round32 (of_nat (unat n))"

text \<open>The operators \<^verbatim>\<open>/\<close>, \<^verbatim>\<open>*\<close>, \<^verbatim>\<open>-\<close> and \<^verbatim>\<open>>\<close> on \<^verbatim>\<open>float\<close>.\<close>

fun fdiv :: "float32 \<Rightarrow> float32 \<Rightarrow> float32" where
  "fdiv NaN _ = NaN"
| "fdiv _ NaN = NaN"
| "fdiv (Finite a) (Finite b) =
     (if b = 0 then (if a = 0 then NaN else if 0 < a then PosInf else NegInf)
      else round32 (a / b))"
| "fdiv (Finite a) _ = Finite 0"
| "fdiv PosInf (Finite b) = (if 0 \<le> b then PosInf else NegInf)"
| "fdiv NegInf (Finite b) = (if 0 \<le> b then NegInf else PosInf)"
| "fdiv _ _ = NaN"

fun fmul :: "float32 \<Rightarrow> float32 \<Rightarrow> float32" where
  "fmul NaN _ = NaN"
| "fmul _ NaN = NaN"
| "fmul (Finite a) (Finite b) = round32 (a * b)"
| "fmul (Finite a) PosInf = (if a = 0 then NaN else if 0 < a then PosInf else NegInf)"
| "fmul (Finite a) NegInf = (if a = 0 then NaN else if 0 < a then NegInf else PosInf)"
| "fmul PosInf (Finite b) = (if b = 0 then NaN else if 0 < b then PosInf else NegInf)"
| "fmul NegInf (Finite b) = (if b = 0 then NaN else if 0 < b then NegInf else PosInf)"
| "fmul PosInf PosInf = PosInf"
| "fmul NegInf NegInf = PosInf"
| "fmul _ _ = NegInf"

fun fsub :: "float32 \<Rightarrow> float32 \<Rightarrow> float32" where
  "fsub NaN _ = NaN"
| "fsub _ NaN = NaN"
| "fsub (Finite a) (Finite b) = round32 (a - b)"
| "fsub (Finite a) PosInf = NegInf"
| "fsub (Finite a) NegInf = PosInf"
| "fsub PosInf PosInf = NaN"
| "fsub NegInf NegInf = NaN"
| "fsub PosInf _ = PosInf"
| "fsub NegInf _ = NegInf"

fun fgt :: "float32 \<Rightarrow> float32 \<Rightarrow> bool" where
  "fgt NaN _ = False"
| "fgt _ NaN = False"
| "fgt (Finite a) (Finite b) = (b < a)"
| "fgt PosInf PosInf = False"
| "fgt PosInf _ = True"
| "fgt _ PosInf = False"
| "fgt NegInf _ = False"
| "fgt (Finite a) NegInf = True"

record VkViewport =
  vp_x :: float32
  vp_y :: float32
  vp_width :: float32
  vp_height :: float32
  vp_minDepth :: float32
  vp_maxDepth :: float32

section \<open>The renderer and the driver\<close>

text \<open>
  The members of \<^verbatim>\<open>class VulkanRenderer\<close> (VulkanRenderer.hpp) that the functions
  below read or write. A \<^verbatim>\<open>std::vector\<close> of handles is a list. The window and
  the physical device do not change once chosen; what they report is part of the
  driver's answers below.
\<close>

record renderer =
  m_initialized :: bool
  m_instance :: handle
  m_debugMessenger :: handle
  m_surface :: handle
  m_device :: handle
  m_graphicsQueue :: handle
  m_presentQueue :: handle
  m_swapChain :: handle
  m_swapChainImages :: "handle list"
  m_swapChainImageFormat :: VkFormat
  m_swapChainExtent :: VkExtent2D
  m_swapChainImageViews :: "handle list"
  m_swapChainFramebuffers :: "handle list"
  m_renderPass :: handle
  m_pipelineLayout :: handle
  m_graphicsPipeline :: handle
  m_commandPool :: handle
  m_commandBuffers :: "handle list"
  m_imageAvailableSemaphores :: "handle list"
  m_renderFinishedSemaphores :: "handle list"
  m_inFlightFences :: "handle list"
  m_currentFrame :: u32
  m_framebufferResized :: bool

text \<open>\<^verbatim>\<open>VkSwapchainCreateInfoKHR\<close> as \<^verbatim>\<open>createSwapChain\<close> fills it in.\<close>

record VkSwapchainCreateInfoKHR =
  ci_surface :: handle
  ci_minImageCount :: u32
  ci_imageFormat :: VkFormat
  ci_imageColorSpace :: VkColorSpaceKHR
  ci_imageExtent :: VkExtent2D
  ci_imageArrayLayers :: u32
  ci_imageUsage :: u32
  ci_imageSharingMode :: VkSharingMode
  ci_queueFamilyIndices :: "u32 list"
  ci_preTransform :: u32
  ci_compositeAlpha :: u32
  ci_presentMode :: VkPresentModeKHR
  ci_clipped :: VkBool32
  ci_oldSwapchain :: handle

text \<open>
  The calls into the driver that wait, create, destroy, record, submit or present, with
  the handles they are given. Every function below returns the calls it made, in order.
  Calls on the logical device are all made on \<open>m_device\<close>; the handle is written out
  for \<^verbatim>\<open>vkDeviceWaitIdle\<close> and \<^verbatim>\<open>vkDestroyDevice\<close>.
\<close>

datatype vk_call =
    DeviceWaitIdle handle
  | WaitForFences handle
  | AcquireNextImageKHR handle handle
  | ResetFences handle
  | ResetCommandBuffer handle
  | BeginCommandBuffer handle
  | CmdBeginRenderPass handle handle handle VkExtent2D
  | CmdBindPipeline handle handle
  | CmdSetViewport handle VkViewport
  | CmdSetScissor handle VkExtent2D
  | CmdDraw handle nat nat nat nat
  | CmdEndRenderPass handle
  | EndCommandBuffer handle
  | QueueSubmit handle handle handle handle handle
  | QueuePresentKHR handle handle handle u32
  | CreateSwapchainKHR VkSwapchainCreateInfoKHR
  | CreateImageView handle VkFormat
  | CreateFramebuffer handle handle VkExtent2D
  | DestroyFramebuffer handle
  | DestroyImageView handle
  | DestroySwapchainKHR handle
  | DestroyPipeline handle
  | DestroyPipelineLayout handle
  | DestroyRenderPass handle
  | DestroySemaphore handle
  | DestroyFence handle
  | DestroyCommandPool handle
  | DestroyDevice handle
  | DestroyDebugUtilsMessengerEXT handle handle
  | DestroySurfaceKHR handle handle
  | DestroyInstance handle

text \<open>
  What the driver and the window answer during one call of \<^verbatim>\<open>drawFrame\<close> (or of
  \<^verbatim>\<open>recreateSwapChain\<close>): the surface's support as \<^verbatim>\<open>querySwapChainSupport\<close> reads
  it, the queue families of the physical device, the window's size in pixels, and the
  result (with the handle or index written on success) of each call that can fail.
  Every driver call is taken to return: a wait that never ends is outside the model.
\<close>

record backend =
  surfaceCapabilities :: VkSurfaceCapabilitiesKHR
  surfaceFormats :: "VkSurfaceFormatKHR list"
  surfacePresentModes :: "VkPresentModeKHR list"
  queueFamilyProperties :: "VkQueueFamilyProperties list"
  surfaceSupport :: "u32 \<Rightarrow> VkBool32"
  windowSizeInPixels :: "int \<times> int"
  createSwapchainKHR :: "VkResult \<times> handle"
  swapchainImages :: "handle list"
  createImageView :: "handle \<Rightarrow> VkResult \<times> handle"
  createFramebuffer :: "handle \<Rightarrow> VkResult \<times> handle"
  acquireNextImageKHR :: "VkResult \<times> u32"
  beginCommandBuffer :: VkResult
  endCommandBuffer :: VkResult
  queueSubmit :: VkResult
  queuePresentKHR :: VkResult

text \<open>
  A member function maps the renderer to how the call ended (\<open>Inl\<close>: an exception or
  undefined behaviour), the renderer as the call left it, and the driver calls made.
  \<open>then_do\<close> runs the next statement unless the first one failed.
\<close>

type_synonym 'a outcome = "(failure + 'a) \<times> renderer \<times> vk_call list"

definition then_do :: "'a outcome \<Rightarrow> ('a \<Rightarrow> renderer \<Rightarrow> 'b outcome) \<Rightarrow> 'b outcome" where
  "then_do r f =
     (case r of
        (Inl e, s, calls) \<Rightarrow> (Inl e, s, calls)
      | (Inr a, s, calls) \<Rightarrow> (case f a s of (r', s', calls') \<Rightarrow> (r', s', calls @ calls')))"

text \<open>\<^verbatim>\<open>vector::resize(n)\<close>: keeps the first \<open>n\<close> elements, pads with null handles.\<close>

definition resize :: "nat \<Rightarrow> handle list \<Rightarrow> handle list" where
  "resize n xs = take n xs @ replicate (n - length xs) VK_NULL_HANDLE"

section \<open>Creating and destroying the swap chain\<close>

definition createSwapChain :: "backend \<Rightarrow> renderer \<Rightarrow> unit outcome" where
  "createSwapChain b s =
     (case chooseSwapSurfaceFormat (surfaceFormats b) of
        Inl e \<Rightarrow> (Inl e, s, [])
      | Inr surfaceFormat \<Rightarrow>
     (case chooseSwapExtent (windowSizeInPixels b) (surfaceCapabilities b) of
        Inl e \<Rightarrow> (Inl e, s, [])
      | Inr extent \<Rightarrow>
     (case findQueueFamilies (queueFamilyProperties b) (surfaceSupport b) of
        Inl e \<Rightarrow> (Inl e, s, [])
      | Inr (indices, _) \<Rightarrow>
     (case graphicsFamily indices of
        None \<Rightarrow> (Inl Bad_optional_access, s, [])
      | Some g \<Rightarrow>
     (case presentFamily indices of
        None \<Rightarrow> (Inl Bad_optional_access, s, [])
      | Some p \<Rightarrow>
          (let createInfo =
                 \<lparr>ci_surface = m_surface s,
                  ci_minImageCount = imageCount (surfaceCapabilities b),
                  ci_imageFormat = format surfaceFormat,
                  ci_imageColorSpace = colorSpace surfaceFormat,
                  ci_imageExtent = extent,
                  ci_imageArrayLayers = 1,
                  ci_imageUsage = VK_IMAGE_USAGE_COLOR_ATTACHMENT_BIT,
                  ci_imageSharingMode =
                    (if g \<noteq> p then VK_SHARING_MODE_CONCURRENT else VK_SHARING_MODE_EXCLUSIVE),
                  ci_queueFamilyIndices = (if g \<noteq> p then [g, p] else []),
                  ci_preTransform = currentTransform (surfaceCapabilities b),
                  ci_compositeAlpha = VK_COMPOSITE_ALPHA_OPAQUE_BIT_KHR,
                  ci_presentMode = chooseSwapPresentMode (surfacePresentModes b),
                  ci_clipped = VK_TRUE,
                  ci_oldSwapchain = VK_NULL_HANDLE\<rparr>
           in if fst (createSwapchainKHR b) \<noteq> VK_SUCCESS
              then (Inl (Runtime_error ''VulkanRenderer::createSwapChain()''), s,
                    [CreateSwapchainKHR createInfo])
              else (Inr (),
                    s\<lparr>m_swapChain := snd (createSwapchainKHR b),
                      m_swapChainImages := swapchainImages b,
                      m_swapChainImageFormat := format surfaceFormat,
                      m_swapChainExtent := extent\<rparr>,
                    [CreateSwapchainKHR createInfo])))))))"

text \<open>
  The loop of \<^verbatim>\<open>createImageViews\<close> from index \<open>i\<close> on: one \<^verbatim>\<open>vkCreateImageView\<close> per
  image, stored at the image's index; the first failure throws and leaves the rest of
  the vector as \<^verbatim>\<open>resize\<close> left it.
\<close>

fun createImageViews_loop ::
  "backend \<Rightarrow> VkFormat \<Rightarrow> handle list \<Rightarrow> nat \<Rightarrow> handle list
    \<Rightarrow> (failure + unit) \<times> handle list \<times> vk_call list" where
  "createImageViews_loop b fmt [] i views = (Inr (), views, [])"
| "createImageViews_loop b fmt (img # imgs) i views =
     (if fst (createImageView b img) \<noteq> VK_SUCCESS
      then (Inl (Runtime_error ''VulkanRenderer::createImageViews()''), views,
            [CreateImageView img fmt])
      else (case createImageViews_loop b fmt imgs (i + 1)
                   (views[i := snd (createImageView b img)]) of
              (r, views', calls) \<Rightarrow> (r, views', CreateImageView img fmt # calls)))"

definition createImageViews :: "backend \<Rightarrow> renderer \<Rightarrow> unit outcome" where
  "createImageViews b s =
     (case createImageViews_loop b (m_swapChainImageFormat s) (m_swapChainImages s) 0
             (resize (length (m_swapChainImages s)) (m_swapChainImageViews s)) of
        (r, views, calls) \<Rightarrow> (r, s\<lparr>m_swapChainImageViews := views\<rparr>, calls))"

fun createFramebuffers_loop ::
  "backend \<Rightarrow> handle \<Rightarrow> VkExtent2D \<Rightarrow> handle list \<Rightarrow> nat \<Rightarrow> handle list
    \<Rightarrow> (failure + unit) \<times> handle list \<times> vk_call list" where
  "createFramebuffers_loop b renderPass extent [] i framebuffers = (Inr (), framebuffers, [])"
| "createFramebuffers_loop b renderPass extent (view # views) i framebuffers =
     (if fst (createFramebuffer b view) \<noteq> VK_SUCCESS
      then (Inl (Runtime_error ''VulkanRenderer::createFramebuffers()''), framebuffers,
            [CreateFramebuffer renderPass view extent])
      else (case createFramebuffers_loop b renderPass extent views (i + 1)
                   (framebuffers[i := snd (createFramebuffer b view)]) of
              (r, framebuffers', calls) \<Rightarrow>
                (r, framebuffers', CreateFramebuffer renderPass view extent # calls)))"

definition createFramebuffers :: "backend \<Rightarrow> renderer \<Rightarrow> unit outcome" where
  "createFramebuffers b s =
     (case createFramebuffers_loop b (m_renderPass s) (m_swapChainExtent s)
             (m_swapChainImageViews s) 0
             (resize (length (m_swapChainImageViews s)) (m_swapChainFramebuffers s)) of
        (r, framebuffers, calls) \<Rightarrow> (r, s\<lparr>m_swapChainFramebuffers := framebuffers\<rparr>, calls))"

text \<open>\<^verbatim>\<open>cleanupSwapChain\<close> destroys; it writes no member.\<close>

definition cleanupSwapChain :: "renderer \<Rightarrow> vk_call list" where
  "cleanupSwapChain s =
     map DestroyFramebuffer (m_swapChainFramebuffers s)
     @ map DestroyImageView (m_swapChainImageViews s)
     @ [DestroySwapchainKHR (m_swapChain s)]"

definition recreateSwapChain :: "backend \<Rightarrow> renderer \<Rightarrow> unit outcome" where
  "recreateSwapChain b s =
     then_do (Inr (), s, DeviceWaitIdle (m_device s) # cleanupSwapChain s) (\<lambda>_ s.
     then_do (createSwapChain b s) (\<lambda>_ s.
     then_do (createImageViews b s) (\<lambda>_ s.
     createFramebuffers b s)))"

section \<open>Drawing a frame\<close>

text \<open>
  Single statements: a driver call that cannot fail, a read \<^verbatim>\<open>v[i]\<close> of a vector
  (undefined behaviour out of range), \<^verbatim>\<open>throw\<close>, and a normal return.
\<close>

definition vk :: "vk_call \<Rightarrow> renderer \<Rightarrow> unit outcome" where
  "vk c s = (Inr (), s, [c])"

definition vector_at :: "handle list \<Rightarrow> nat \<Rightarrow> renderer \<Rightarrow> handle outcome" where
  "vector_at v i s = (if i < length v then (Inr (v ! i), s, []) else (Inl Undefined_behaviour, s, []))"

definition throw :: "failure \<Rightarrow> renderer \<Rightarrow> 'a outcome" where
  "throw e s = (Inl e, s, [])"

definition returns :: "'a \<Rightarrow> renderer \<Rightarrow> 'a outcome" where
  "returns a s = (Inr a, s, [])"

text \<open>
  The viewport that \<^verbatim>\<open>recordCommandBuffer\<close> computes from \<open>m_swapChainExtent\<close>: the
  target ratio is the \<^verbatim>\<open>float\<close> quotient \<^verbatim>\<open>4.0f / 3.0f\<close>; if the extent is wider,
  the width becomes height times ratio, otherwise the height becomes width divided by
  ratio; the offsets are half of what the extent has left on each axis.
\<close>

definition letterbox_viewport :: "VkExtent2D \<Rightarrow> VkViewport" where
  "letterbox_viewport extent =
     (let targetAspectRatio = fdiv (Finite 4) (Finite 3);
          width0 = float_of_u32 (width extent);
          height0 = float_of_u32 (height extent);
          width1 = (if fgt (fdiv width0 height0) targetAspectRatio
                    then fmul height0 targetAspectRatio else width0);
          height1 = (if fgt (fdiv width0 height0) targetAspectRatio
                     then height0 else fdiv width0 targetAspectRatio);
          x = fdiv (fsub (float_of_u32 (width extent)) width1) (Finite 2);
          y = fdiv (fsub (float_of_u32 (height extent)) height1) (Finite 2)
      in \<lparr>vp_x = x, vp_y = y, vp_width = width1, vp_height = height1,
          vp_minDepth = Finite 0, vp_maxDepth = Finite 1\<rparr>)"

text \<open>
  \<^verbatim>\<open>recordCommandBuffer(commandBuffer, imageIndex)\<close>: begin, one render pass on the
  framebuffer of the acquired image with the pipeline bound, viewport and scissor set and
  one draw of three vertices, end.
\<close>

definition recordCommandBuffer :: "backend \<Rightarrow> handle \<Rightarrow> u32 \<Rightarrow> renderer \<Rightarrow> unit outcome" where
  "recordCommandBuffer b commandBuffer imageIndex s =
     then_do (vk (BeginCommandBuffer commandBuffer) s) (\<lambda>_ s.
     if beginCommandBuffer b \<noteq> VK_SUCCESS
     then throw (Runtime_error ''VulkanRenderer::recordCommandBuffer()'') s
     else
     then_do (vector_at (m_swapChainFramebuffers s) (unat imageIndex) s) (\<lambda>framebuffer s.
     then_do (vk (CmdBeginRenderPass commandBuffer (m_renderPass s) framebuffer
                    (m_swapChainExtent s)) s) (\<lambda>_ s.
     then_do (vk (CmdBindPipeline commandBuffer (m_graphicsPipeline s)) s) (\<lambda>_ s.
     then_do (vk (CmdSetViewport commandBuffer (letterbox_viewport (m_swapChainExtent s))) s)
       (\<lambda>_ s.
     then_do (vk (CmdSetScissor commandBuffer (m_swapChainExtent s)) s) (\<lambda>_ s.
     then_do (vk (CmdDraw commandBuffer 3 1 0 0) s) (\<lambda>_ s.
     then_do (vk (CmdEndRenderPass commandBuffer) s) (\<lambda>_ s.
     then_do (vk (EndCommandBuffer commandBuffer) s) (\<lambda>_ s.
     if endCommandBuffer b \<noteq> VK_SUCCESS
     then throw (Runtime_error ''VulkanRenderer::recordCommandBuffer()'') s
     else returns () s)))))))))"

text \<open>
  \<^verbatim>\<open>drawFrame\<close> returns in two ways: early, after an out-of-date acquire, or at its end,
  after the frame was submitted and handed to presentation.
\<close>

datatype frame = Frame_aborted | Frame_completed

definition drawFrame :: "backend \<Rightarrow> renderer \<Rightarrow> frame outcome" where
  "drawFrame b s =
     then_do (vector_at (m_inFlightFences s) (unat (m_currentFrame s)) s) (\<lambda>fence s.
     then_do (vk (WaitForFences fence) s) (\<lambda>_ s.
     then_do (vector_at (m_imageAvailableSemaphores s) (unat (m_currentFrame s)) s)
       (\<lambda>imageAvailable s.
     then_do (vk (AcquireNextImageKHR (m_swapChain s) imageAvailable) s) (\<lambda>_ s.
     let result = fst (acquireNextImageKHR b); imageIndex = snd (acquireNextImageKHR b) in
     if result = VK_ERROR_OUT_OF_DATE_KHR
     then then_do (recreateSwapChain b s) (\<lambda>_ s. returns Frame_aborted s)
     else if result \<noteq> VK_SUCCESS \<and> result \<noteq> VK_SUBOPTIMAL_KHR
     then throw (Runtime_error ''VulkanRenderer::drawFrame()'') s
     else
     then_do (vk (ResetFences fence) s) (\<lambda>_ s.
     then_do (vector_at (m_commandBuffers s) (unat (m_currentFrame s)) s) (\<lambda>commandBuffer s.
     then_do (vk (ResetCommandBuffer commandBuffer) s) (\<lambda>_ s.
     then_do (recordCommandBuffer b commandBuffer imageIndex s) (\<lambda>_ s.
     then_do (vector_at (m_renderFinishedSemaphores s) (unat (m_currentFrame s)) s)
       (\<lambda>renderFinished s.
     then_do (vk (QueueSubmit (m_graphicsQueue s) imageAvailable commandBuffer
                    renderFinished fence) s) (\<lambda>_ s.
     if queueSubmit b \<noteq> VK_SUCCESS
     then throw (Runtime_error ''VulkanRenderer::drawFrame()'') s
     else
     then_do (vk (QueuePresentKHR (m_presentQueue s) renderFinished (m_swapChain s)
                    imageIndex) s) (\<lambda>_ s.
     then_do
       (let result = queuePresentKHR b in
        if result = VK_ERROR_OUT_OF_DATE_KHR \<or> result = VK_SUBOPTIMAL_KHR
           \<or> m_framebufferResized s
        then recreateSwapChain b (s\<lparr>m_framebufferResized := False\<rparr>)
        else if result \<noteq> VK_SUCCESS
        then throw (Runtime_error ''VulkanRenderer::drawFrame()'') s
        else returns () s) (\<lambda>_ s.
     if length (m_commandBuffers s) = 0 then throw Undefined_behaviour s
     else returns Frame_completed
            (s\<lparr>m_currentFrame :=
                 of_nat (unat (m_currentFrame s + 1) mod length (m_commandBuffers s))\<rparr>)
     ))))))))))))"

definition setFramebufferResized :: "bool \<Rightarrow> renderer \<Rightarrow> renderer" where
  "setFramebufferResized resized s = s\<lparr>m_framebufferResized := resized\<rparr>"

section \<open>Shutting down\<close>

text \<open>
  The loop of \<^verbatim>\<open>cleanup\<close> over \<^verbatim>\<open>i < m_commandBuffers.size()\<close>, which destroys the
  two semaphores and the fence of each frame slot.
\<close>

fun destroySyncObjects :: "renderer \<Rightarrow> nat list \<Rightarrow> (failure + unit) \<times> vk_call list" where
  "destroySyncObjects s [] = (Inr (), [])"
| "destroySyncObjects s (i # rest) =
     (if \<not> i < length (m_renderFinishedSemaphores s) then (Inl Undefined_behaviour, [])
      else if \<not> i < length (m_imageAvailableSemaphores s)
      then (Inl Undefined_behaviour, [DestroySemaphore (m_renderFinishedSemaphores s ! i)])
      else if \<not> i < length (m_inFlightFences s)
      then (Inl Undefined_behaviour,
            [DestroySemaphore (m_renderFinishedSemaphores s ! i),
             DestroySemaphore (m_imageAvailableSemaphores s ! i)])
      else (case destroySyncObjects s rest of
              (r, calls) \<Rightarrow>
                (r, DestroySemaphore (m_renderFinishedSemaphores s ! i)
                    # DestroySemaphore (m_imageAvailableSemaphores s ! i)
                    # DestroyFence (m_inFlightFences s ! i) # calls)))"

text \<open>
  \<^verbatim>\<open>cleanup\<close>. The first argument is the build constant
  \<^verbatim>\<open>ENABLE_VALIDATION_LAYER\<close>. \<open>DestroyDebugUtilsMessengerEXT\<close> stands for the call of
  the renderer's member function of that name.
\<close>

definition cleanup :: "bool \<Rightarrow> renderer \<Rightarrow> unit outcome" where
  "cleanup ENABLE_VALIDATION_LAYER s =
     then_do (vk (DeviceWaitIdle (m_device s)) s) (\<lambda>_ s.
     if m_initialized s then
       then_do (Inr (), s, cleanupSwapChain s) (\<lambda>_ s.
       then_do (vk (DestroyPipeline (m_graphicsPipeline s)) s) (\<lambda>_ s.
       then_do (vk (DestroyPipelineLayout (m_pipelineLayout s)) s) (\<lambda>_ s.
       then_do (vk (DestroyRenderPass (m_renderPass s)) s) (\<lambda>_ s.
       then_do (case destroySyncObjects s [0..<length (m_commandBuffers s)] of
                  (r, calls) \<Rightarrow> (r, s, calls)) (\<lambda>_ s.
       then_do (vk (DestroyCommandPool (m_commandPool s)) s) (\<lambda>_ s.
       then_do (vk (DestroyDevice (m_device s)) s) (\<lambda>_ s.
       then_do (if ENABLE_VALIDATION_LAYER
                then vk (DestroyDebugUtilsMessengerEXT (m_instance s) (m_debugMessenger s)) s
                else returns () s) (\<lambda>_ s.
       then_do (vk (DestroySurfaceKHR (m_instance s) (m_surface s)) s) (\<lambda>_ s.
       then_do (vk (DestroyInstance (m_instance s)) s) (\<lambda>_ s.
       returns () (s\<lparr>m_initialized := False\<rparr>)))))))))))
     else returns () s)"

section \<open>The host loop\<close>

text \<open>
  \<^verbatim>\<open>GameApp::run\<close> after a successful \<^verbatim>\<open>init\<close>: each iteration polls the pending
  events and, unless the window is minimized, renders one frame. The input lists, per
  iteration, the events polled and the driver's answers during the frame; the loop stops
  when \<open>m_isRunning\<close> is false at its head, when an exception leaves \<^verbatim>\<open>render\<close>, or
  when the input ends. It returns how each frame drawn ended.
\<close>

datatype SDL_Event =
    SDL_EVENT_QUIT
  | SDL_EVENT_WINDOW_RESIZED
  | SDL_EVENT_WINDOW_MINIMIZED
  | SDL_EVENT_WINDOW_RESTORED
  | SDL_EVENT_OTHER

record GameApp =
  m_isMinimized :: bool
  m_isRunning :: bool
  m_renderer :: renderer

fun handleEvents :: "SDL_Event list \<Rightarrow> GameApp \<Rightarrow> GameApp" where
  "handleEvents [] app = app"
| "handleEvents (event # rest) app =
     handleEvents rest
       (case event of
          SDL_EVENT_QUIT \<Rightarrow> app\<lparr>m_isRunning := False\<rparr>
        | SDL_EVENT_WINDOW_RESIZED \<Rightarrow>
            app\<lparr>m_renderer := setFramebufferResized True (m_renderer app)\<rparr>
        | SDL_EVENT_WINDOW_MINIMIZED \<Rightarrow> app\<lparr>m_isMinimized := True\<rparr>
        | SDL_EVENT_WINDOW_RESTORED \<Rightarrow> app\<lparr>m_isMinimized := False\<rparr>
        | SDL_EVENT_OTHER \<Rightarrow> app)"

fun run_loop :: "(SDL_Event list \<times> backend) list \<Rightarrow> GameApp \<Rightarrow> failure option \<times> GameApp \<times> frame list" where
  "run_loop [] app = (None, app, [])"
| "run_loop ((events, b) # rest) app =
     (if \<not> m_isRunning app then (None, app, [])
      else
        (let app1 = handleEvents events app in
         if m_isMinimized app1 then run_loop rest app1
         else
           (case drawFrame b (m_renderer app1) of
              (Inl e, s, _) \<Rightarrow> (Some e, app1\<lparr>m_renderer := s\<rparr>, [])
            | (Inr frame, s, _) \<Rightarrow>
                (case run_loop rest (app1\<lparr>m_renderer := s\<rparr>) of
                   (e, app', frames) \<Rightarrow> (e, app', frame # frames)))))"

section \<open>Vocabulary of the properties\<close>

text \<open>
  \<open>last_below P n r\<close>: \<open>r\<close> is the last index below \<open>n\<close> that satisfies \<open>P\<close>, or
  \<open>None\<close> when no index below \<open>n\<close> does. \<open>seen_both G P m\<close>: among the first \<open>m\<close>
  indices one satisfies \<open>G\<close> and one satisfies \<open>P\<close>.
\<close>

definition last_below :: "(nat \<Rightarrow> bool) \<Rightarrow> nat \<Rightarrow> nat option \<Rightarrow> bool" where
  "last_below P n r \<longleftrightarrow>
     (case r of
        None \<Rightarrow> \<forall>j<n. \<not> P j
      | Some g \<Rightarrow> g < n \<and> P g \<and> (\<forall>j. g < j \<and> j < n \<longrightarrow> \<not> P j))"

definition seen_both :: "(nat \<Rightarrow> bool) \<Rightarrow> (nat \<Rightarrow> bool) \<Rightarrow> nat \<Rightarrow> bool" where
  "seen_both G P m \<longleftrightarrow> (\<exists>i<m. G i) \<and> (\<exists>j<m. P j)"

text \<open>
  \<open>swap_chain_only s s'\<close>: \<open>s'\<close> differs from \<open>s\<close> at most in the six members that
  describe the swap chain (the chain, its images, format and extent, the image views and
  the framebuffers).
\<close>

definition swap_chain_only :: "renderer \<Rightarrow> renderer \<Rightarrow> bool" where
  "swap_chain_only s s' \<longleftrightarrow>
     s' = s\<lparr>m_swapChain := m_swapChain s',
            m_swapChainImages := m_swapChainImages s',
            m_swapChainImageFormat := m_swapChainImageFormat s',
            m_swapChainExtent := m_swapChainExtent s',
            m_swapChainImageViews := m_swapChainImageViews s',
            m_swapChainFramebuffers := m_swapChainFramebuffers s'\<rparr>"

text \<open>
  The creation calls of a rebuilt chain, in order: the chain, one view per image, one
  framebuffer per view.
\<close>

definition creation_calls ::
  "VkSwapchainCreateInfoKHR \<Rightarrow> handle list \<Rightarrow> VkFormat \<Rightarrow> handle \<Rightarrow> handle list \<Rightarrow> VkExtent2D
    \<Rightarrow> vk_call list" where
  "creation_calls createInfo images fmt renderPass views extent =
     CreateSwapchainKHR createInfo
     # map (\<lambda>img. CreateImageView img fmt) images
     @ map (\<lambda>view. CreateFramebuffer renderPass view extent) views"

text \<open>
  \<open>after_calls cs x\<close>: the outcome \<open>x\<close> of the rest of a function, once the calls
  \<open>cs\<close> have been made. \<open>record_calls\<close>: the calls of a \<open>recordCommandBuffer\<close> that
  returns.
\<close>

definition after_calls :: "vk_call list \<Rightarrow> 'a outcome \<Rightarrow> 'a outcome" where
  "after_calls cs x = (case x of (r, s, c) \<Rightarrow> (r, s, cs @ c))"

definition record_calls :: "renderer \<Rightarrow> handle \<Rightarrow> u32 \<Rightarrow> vk_call list" where
  "record_calls s cb idx =
     [BeginCommandBuffer cb,
      CmdBeginRenderPass cb (m_renderPass s) (m_swapChainFramebuffers s ! unat idx)
        (m_swapChainExtent s),
      CmdBindPipeline cb (m_graphicsPipeline s),
             CmdSetViewport cb (letterbox_viewport (m_swapChainExtent s)),
      CmdSetScissor cb (m_swapChainExtent s), CmdDraw cb 3 1 0 0,
      CmdEndRenderPass cb, EndCommandBuffer cb]"

section \<open>Example inputs\<close>

text \<open>
  A renderer as \<^verbatim>\<open>initVulkan\<close> leaves it, with three frame slots, and a driver whose
  calls all succeed; the same driver reporting the chain out of date at the acquire.
\<close>

definition example_renderer :: renderer where
  "example_renderer =
     \<lparr>m_initialized = True, m_instance = 1, m_debugMessenger = 2, m_surface = 3,
      m_device = 5, m_graphicsQueue = 6, m_presentQueue = 7, m_swapChain = 10,
      m_swapChainImages = [11, 12, 13], m_swapChainImageFormat = 50,
      m_swapChainExtent = \<lparr>width = 800, height = 600\<rparr>,
      m_swapChainImageViews = [21, 22, 23], m_swapChainFramebuffers = [31, 32, 33],
      m_renderPass = 40, m_pipelineLayout = 41, m_graphicsPipeline = 42,
      m_commandPool = 43, m_commandBuffers = [51, 52, 53],
      m_imageAvailableSemaphores = [61, 62, 63],
      m_renderFinishedSemaphores = [71, 72, 73],
      m_inFlightFences = [81, 82, 83], m_currentFrame = 0,
      m_framebufferResized = False\<rparr>"

definition example_backend :: backend where
  "example_backend =
     \<lparr>surfaceCapabilities =
        \<lparr>minImageCount = 2, maxImageCount = 2,
         currentExtent = \<lparr>width = 1000, height = 600\<rparr>,
         minImageExtent = \<lparr>width = 1, height = 1\<rparr>,
         maxImageExtent = \<lparr>width = 4096, height = 4096\<rparr>,
         currentTransform = 1\<rparr>,
      surfaceFormats = [\<lparr>format = 44, colorSpace = 0\<rparr>, \<lparr>format = 50, colorSpace = 0\<rparr>],
      surfacePresentModes = [2],
      queueFamilyProperties = [\<lparr>queueFlags = 15\<rparr>],
      surfaceSupport = (\<lambda>i. 1),
      windowSizeInPixels = (1000, 600),
      createSwapchainKHR = (0, 110),
      swapchainImages = [111, 112],
      createImageView = (\<lambda>img. (0, img + 10)),
      createFramebuffer = (\<lambda>view. (0, view + 10)),
      acquireNextImageKHR = (0, 1),
      beginCommandBuffer = 0,
      endCommandBuffer = 0,
      queueSubmit = 0,
      queuePresentKHR = 0\<rparr>"

definition stale_backend :: backend where
  "stale_backend = example_backend\<lparr>acquireNextImageKHR := (VK_ERROR_OUT_OF_DATE_KHR, 0)\<rparr>"

text \<open>
  A device with two graphics families followed by a transfer-only family, and a surface
  that only the third family can present to.
\<close>

definition two_graphics_families :: "VkQueueFamilyProperties list" where
  "two_graphics_families = [\<lparr>queueFlags = 1\<rparr>, \<lparr>queueFlags = 1\<rparr>, \<lparr>queueFlags = 4\<rparr>]"

definition present_on_third :: "u32 \<Rightarrow> VkBool32" where
  "present_on_third i = (if i = 2 then 1 else 0)"

text \<open>A surface whose current extent is the undefined value, with a minimum of 100 x 100.\<close>

definition undefined_extent_capabilities :: VkSurfaceCapabilitiesKHR where
  "undefined_extent_capabilities =
     \<lparr>minImageCount = 2, maxImageCount = 0,
      currentExtent = \<lparr>width = - 1, height = - 1\<rparr>,
      minImageExtent = \<lparr>width = 100, height = 100\<rparr>,
      maxImageExtent = \<lparr>width = 4096, height = 4096\<rparr>,
      currentTransform = 1\<rparr>"

definition example_createInfo :: VkSwapchainCreateInfoKHR where
  "example_createInfo =
     \<lparr>ci_surface = 3, ci_minImageCount = 2, ci_imageFormat = 50, ci_imageColorSpace = 0,
      ci_imageExtent = \<lparr>width = 1000, height = 600\<rparr>, ci_imageArrayLayers = 1,
      ci_imageUsage = 16, ci_imageSharingMode = 0, ci_queueFamilyIndices = [],
      ci_preTransform = 1, ci_compositeAlpha = 1, ci_presentMode = 2, ci_clipped = 1,
      ci_oldSwapchain = 0\<rparr>"

text \<open>The example renderer after the example driver rebuilt its swap chain.\<close>

definition example_recreated :: renderer where
  "example_recreated =
     example_renderer
       \<lparr>m_swapChain := 110, m_swapChainImages := [111, 112],
        m_swapChainImageFormat := 50,
        m_swapChainExtent := \<lparr>width = 1000, height = 600\<rparr>,
        m_swapChainImageViews := [121, 122], m_swapChainFramebuffers := [131, 132]\<rparr>"

definition example_recreation_calls :: "vk_call list" where
  "example_recreation_calls =
     [DeviceWaitIdle 5, DestroyFramebuffer 31, DestroyFramebuffer 32, DestroyFramebuffer 33,
      DestroyImageView 21, DestroyImageView 22, DestroyImageView 23, DestroySwapchainKHR 10,
      CreateSwapchainKHR example_createInfo,
      CreateImageView 111 50, CreateImageView 112 50,
      CreateFramebuffer 40 121 \<lparr>width = 1000, height = 600\<rparr>,
      CreateFramebuffer 40 122 \<lparr>width = 1000, height = 600\<rparr>]"

text \<open>
  The example renderer after a resize event and an aborted frame, and after the frame
  that follows; the calls of the aborted frame and of the following frame; an
  application running the example renderer, and five iterations of its loop.
\<close>

definition example_aborted_calls :: "vk_call list" where
  "example_aborted_calls = WaitForFences 81 # AcquireNextImageKHR 10 61 # example_recreation_calls"

definition example_resized :: renderer where
  "example_resized = setFramebufferResized True example_renderer"

definition example_resized_aborted :: renderer where
  "example_resized_aborted = example_recreated\<lparr>m_framebufferResized := True\<rparr>"

definition example_presented :: renderer where
  "example_presented = example_recreated\<lparr>m_currentFrame := 1\<rparr>"

definition example_presented_calls :: "vk_call list" where
  "example_presented_calls =
     [WaitForFences 81, AcquireNextImageKHR 110 61, ResetFences 81, ResetCommandBuffer 51,
      BeginCommandBuffer 51, CmdBeginRenderPass 51 40 132 \<lparr>width = 1000, height = 600\<rparr>,
      CmdBindPipeline 51 42,
      CmdSetViewport 51
        \<lparr>vp_x = Finite 100, vp_y = Finite 0, vp_width = Finite 800, vp_height = Finite 600,
         vp_minDepth = Finite 0, vp_maxDepth = Finite 1\<rparr>,
      CmdSetScissor 51 \<lparr>width = 1000, height = 600\<rparr>, CmdDraw 51 3 1 0 0,
      CmdEndRenderPass 51, EndCommandBuffer 51, QueueSubmit 6 61 51 71 81,
      QueuePresentKHR 7 71 110 1, DeviceWaitIdle 5,
      DestroyFramebuffer 131, DestroyFramebuffer 132,
      DestroyImageView 121, DestroyImageView 122, DestroySwapchainKHR 110,
      CreateSwapchainKHR example_createInfo,
      CreateImageView 111 50, CreateImageView 112 50,
      CreateFramebuffer 40 121 \<lparr>width = 1000, height = 600\<rparr>,
      CreateFramebuffer 40 122 \<lparr>width = 1000, height = 600\<rparr>]"

definition example_app :: GameApp where
  "example_app = \<lparr>m_isMinimized = False, m_isRunning = True, m_renderer = example_renderer\<rparr>"

definition example_inputs :: "(SDL_Event list \<times> backend) list" where
  "example_inputs =
     [([], example_backend), ([SDL_EVENT_WINDOW_RESIZED], stale_backend),
      ([], example_backend), ([SDL_EVENT_QUIT], example_backend), ([], example_backend)]"

text \<open>The example renderer after \<open>cleanup\<close>, and the calls of that \<open>cleanup\<close>.\<close>

definition example_cleaned :: renderer where
  "example_cleaned = example_renderer\<lparr>m_initialized := False\<rparr>"

definition example_cleanup_calls :: "vk_call list" where
  "example_cleanup_calls =
     [DeviceWaitIdle 5, DestroyFramebuffer 31, DestroyFramebuffer 32, DestroyFramebuffer 33,
      DestroyImageView 21, DestroyImageView 22, DestroyImageView 23, DestroySwapchainKHR 10,
      DestroyPipeline 42, DestroyPipelineLayout 41, DestroyRenderPass 40,
      DestroySemaphore 71, DestroySemaphore 61, DestroyFence 81,
      DestroySemaphore 72, DestroySemaphore 62, DestroyFence 82,
      DestroySemaphore 73, DestroySemaphore 63, DestroyFence 83,
      DestroyCommandPool 43, DestroyDevice 5, DestroyDebugUtilsMessengerEXT 1 2,
      DestroySurfaceKHR 1 3, DestroyInstance 1]"

section \<open>Properties of the queue family scan\<close>

lemma last_below_Suc:
  "last_below P k r \<Longrightarrow> last_below P (Suc k) (if P k then Some k else r)"
  by (auto simp: last_below_def less_Suc_eq split: option.splits)

lemma last_below_None_iff: "last_below P k r \<Longrightarrow> r \<noteq> None \<longleftrightarrow> (\<exists>i<k. P i)"
  by (auto simp: last_below_def split: option.splits)

lemma unat_idx: "k < 2 ^ 31 \<Longrightarrow> unat (word_of_nat k :: u32) = k"
  by (simp add: unat_of_nat take_bit_nat_eq_self)

lemma loop_inv:
  fixes qs :: "VkQueueFamilyProperties list" and sup :: "u32 \<Rightarrow> VkBool32"
  defines "G \<equiv> \<lambda>i. graphics_capable (qs ! i)"
      and "P \<equiv> \<lambda>i. sup (of_nat i) \<noteq> 0"
  assumes len: "length qs < 2 ^ 31"
  shows "k \<le> length qs \<Longrightarrow>
     last_below G k (map_option unat (graphicsFamily ind0)) \<Longrightarrow>
     last_below P k (map_option unat (presentFamily ind0)) \<Longrightarrow>
     (\<forall>m\<le>k. \<not> seen_both G P m) \<Longrightarrow>
     \<exists>ind n. findQueueFamilies_loop (drop k qs) sup (int k) ind0 = Inr (ind, n)
       \<and> k \<le> n \<and> n \<le> length qs
       \<and> last_below G n (map_option unat (graphicsFamily ind))
       \<and> last_below P n (map_option unat (presentFamily ind))
       \<and> (\<forall>m<n. \<not> seen_both G P m)
       \<and> (n < length qs \<longrightarrow> isComplete ind)"
proof (induction "length qs - k" arbitrary: k ind0)
  case 0
  then have "k = length qs" by simp
  with 0 show ?case by (auto simp: less_le)
next
  case (Suc d)
  then have k: "k < length qs" by simp
  then have k31: "k < 2 ^ 31" using len by simp
  define ind1 where "ind1 = (if G k then ind0\<lparr>graphicsFamily := Some (word_of_int (int k))\<rparr> else ind0)"
  define ind2 where "ind2 = (if P k then ind1\<lparr>presentFamily := Some (word_of_int (int k))\<rparr> else ind1)"
  have g2: "map_option unat (graphicsFamily ind2) = (if G k then Some k else map_option unat (graphicsFamily ind0))"
    using k31 by (simp add: ind2_def ind1_def unat_idx)
  have p2: "map_option unat (presentFamily ind2) = (if P k then Some k else map_option unat (presentFamily ind0))"
    using k31 by (simp add: ind2_def ind1_def unat_idx)
  have lg: "last_below G (Suc k) (map_option unat (graphicsFamily ind2))"
    unfolding g2 by (rule last_below_Suc) (rule Suc.prems)
  have lp: "last_below P (Suc k) (map_option unat (presentFamily ind2))"
    unfolding p2 by (rule last_below_Suc) (rule Suc.prems)
  have comp: "isComplete ind2 \<longleftrightarrow> seen_both G P (Suc k)"
    using last_below_None_iff[OF lg] last_below_None_iff[OF lp]
    by (simp add: isComplete_def seen_both_def)
  have step: "findQueueFamilies_loop (drop k qs) sup (int k) ind0 =
      (if isComplete ind2 then Inr (ind2, Suc k)
       else findQueueFamilies_loop (drop (Suc k) qs) sup (int (Suc k)) ind2)"
    using k len unfolding Cons_nth_drop_Suc[OF k, symmetric]
    by (simp add: Let_def ind2_def ind1_def G_def P_def INT_MAX_def add.commute)
  show ?case
  proof (cases "isComplete ind2")
    case True
    have "\<forall>m<Suc k. \<not> seen_both G P m" using Suc.prems(4) by (simp add: less_Suc_eq_le)
    with True step lg lp k show ?thesis by auto
  next
    case False
    have nb: "\<forall>m\<le>Suc k. \<not> seen_both G P m"
      using Suc.prems(4) False comp by (auto simp: le_Suc_eq)
    have "\<exists>ind n. findQueueFamilies_loop (drop (Suc k) qs) sup (int (Suc k)) ind2 = Inr (ind, n)
       \<and> Suc k \<le> n \<and> n \<le> length qs
       \<and> last_below G n (map_option unat (graphicsFamily ind))
       \<and> last_below P n (map_option unat (presentFamily ind))
       \<and> (\<forall>m<n. \<not> seen_both G P m)
       \<and> (n < length qs \<longrightarrow> isComplete ind)"
      using Suc.hyps(2) k by (intro Suc.hyps(1) lg lp nb) auto
    then show ?thesis using False step by auto
  qed
qed

text \<open>
  Claim C2, as amended. For a device with fewer than \<open>2^31\<close> queue families,
  \<open>findQueueFamilies\<close> returns; it examines the first \<open>n\<close> families, where no shorter
  prefix contains both a graphics-capable and a present-capable family, and where the
  result is complete unless the whole list was examined (the scan stops as soon as both
  are recorded). \<open>graphicsFamily\<close> is the last graphics-capable family among the \<open>n\<close>
  examined and \<open>presentFamily\<close> the last present-capable one: a later match overwrites
  an earlier one.
\<close>

theorem findQueueFamilies_records_last_match:
  assumes "length queueFamilies < 2 ^ 31"
  shows "\<exists>indices n.
     findQueueFamilies queueFamilies presentSupport = Inr (indices, n)
     \<and> n \<le> length queueFamilies
     \<and> last_below (\<lambda>i. graphics_capable (queueFamilies ! i)) n
         (map_option unat (graphicsFamily indices))
     \<and> last_below (\<lambda>i. presentSupport (of_nat i) \<noteq> 0) n
         (map_option unat (presentFamily indices))
     \<and> (\<forall>m<n. \<not> seen_both (\<lambda>i. graphics_capable (queueFamilies ! i))
                     (\<lambda>i. presentSupport (of_nat i) \<noteq> 0) m)
     \<and> (n < length queueFamilies \<longrightarrow> isComplete indices)"
  using loop_inv[OF assms, of 0 "\<lparr>graphicsFamily = None, presentFamily = None\<rparr>" presentSupport]
  by (simp add: findQueueFamilies_def last_below_def seen_both_def)

lemma findQueueFamilies_example:
  "findQueueFamilies two_graphics_families present_on_third
     = Inr (\<lparr>graphicsFamily = Some 1, presentFamily = Some 2\<rparr>, 3)"
  by (simp add: findQueueFamilies_def two_graphics_families_def present_on_third_def
        graphics_capable_def isComplete_def VK_QUEUE_GRAPHICS_BIT_def INT_MAX_def)

text \<open>
  Witness of C2 as amended: on the example device the scan examines all three families
  and records family 1, the last graphics-capable one, and family 2.
\<close>

theorem findQueueFamilies_records_last_match_witness:
  "length two_graphics_families < 2 ^ 31
   \<and> (\<exists>indices n.
        findQueueFamilies two_graphics_families present_on_third = Inr (indices, n)
        \<and> n = 3 \<and> graphicsFamily indices = Some 1 \<and> presentFamily indices = Some 2
        \<and> last_below (\<lambda>i. graphics_capable (two_graphics_families ! i)) n
            (map_option unat (graphicsFamily indices)))"
proof -
  have len: "length two_graphics_families < 2 ^ 31"
    by (simp add: two_graphics_families_def)
  from findQueueFamilies_records_last_match[OF len, of present_on_third]
  show ?thesis using len by (auto simp: findQueueFamilies_example)
qed

text \<open>
  Counterexample to C2 as stated: family 0 of the example device is graphics-capable, so
  it is the first such family, yet \<open>graphicsFamily\<close> ends as 1.
\<close>

theorem findQueueFamilies_first_graphics_counterexample:
  "graphics_capable (two_graphics_families ! 0)
   \<and> findQueueFamilies two_graphics_families present_on_third
       = Inr (\<lparr>graphicsFamily = Some 1, presentFamily = Some 2\<rparr>, 3)"
  by (simp add: findQueueFamilies_example)
     (simp add: two_graphics_families_def graphics_capable_def VK_QUEUE_GRAPHICS_BIT_def)

section \<open>Properties of the swap chain's parameters\<close>

lemma chooseSwapSurfaceFormat_loop_Some:
  "chooseSwapSurfaceFormat_loop fs = Some f \<Longrightarrow>
     f = \<lparr>format = VK_FORMAT_B8G8R8A8_SRGB, colorSpace = VK_COLOR_SPACE_SRGB_NONLINEAR_KHR\<rparr>
     \<and> f \<in> set fs"
  by (induction fs) (auto split: if_splits)

lemma chooseSwapSurfaceFormat_loop_None:
  "chooseSwapSurfaceFormat_loop fs = None \<Longrightarrow>
     \<lparr>format = VK_FORMAT_B8G8R8A8_SRGB, colorSpace = VK_COLOR_SPACE_SRGB_NONLINEAR_KHR\<rparr>
       \<notin> set fs"
  by (induction fs) (auto split: if_splits)

text \<open>
  Claim C8. On a non-empty list of supported formats \<open>chooseSwapSurfaceFormat\<close> returns
  the pair (8-bit BGRA sRGB, sRGB nonlinear) if the pair occurs anywhere in the list, and
  the first element of the list otherwise; the list is arbitrary, so this holds for
  every ordering.
\<close>

theorem chooseSwapSurfaceFormat_prefers_bgra_srgb:
  "availableFormats \<noteq> [] \<Longrightarrow>
   chooseSwapSurfaceFormat availableFormats =
     Inr (if \<lparr>format = VK_FORMAT_B8G8R8A8_SRGB,
               colorSpace = VK_COLOR_SPACE_SRGB_NONLINEAR_KHR\<rparr> \<in> set availableFormats
          then \<lparr>format = VK_FORMAT_B8G8R8A8_SRGB,
                colorSpace = VK_COLOR_SPACE_SRGB_NONLINEAR_KHR\<rparr>
          else hd availableFormats)"
  using chooseSwapSurfaceFormat_loop_Some[of availableFormats]
    chooseSwapSurfaceFormat_loop_None[of availableFormats]
  by (cases "chooseSwapSurfaceFormat_loop availableFormats"; cases availableFormats)
     (auto simp: chooseSwapSurfaceFormat_def)

text \<open>
  Witness of C8: the preferred pair is found behind another format, and a list without
  it yields its first element.
\<close>

theorem chooseSwapSurfaceFormat_prefers_bgra_srgb_witness:
  "surfaceFormats example_backend \<noteq> []
   \<and> chooseSwapSurfaceFormat (surfaceFormats example_backend)
       = Inr \<lparr>format = 50, colorSpace = 0\<rparr>
   \<and> chooseSwapSurfaceFormat [\<lparr>format = 44, colorSpace = 0\<rparr>, \<lparr>format = 37, colorSpace = 0\<rparr>]
       = Inr \<lparr>format = 44, colorSpace = 0\<rparr>"
  using chooseSwapSurfaceFormat_prefers_bgra_srgb[of "surfaceFormats example_backend"]
    chooseSwapSurfaceFormat_prefers_bgra_srgb
      [of "[\<lparr>format = 44, colorSpace = 0\<rparr>, \<lparr>format = 37, colorSpace = 0\<rparr>]"]
  by (simp add: example_backend_def VK_FORMAT_B8G8R8A8_SRGB_def
        VK_COLOR_SPACE_SRGB_NONLINEAR_KHR_def)

text \<open>
  The present mode: \<open>chooseSwapPresentMode\<close> returns mailbox exactly when mailbox is among
  the supported modes, and FIFO otherwise, also when FIFO itself is not listed.
\<close>

theorem chooseSwapPresentMode_mailbox_or_fifo:
  "chooseSwapPresentMode availablePresentModes =
     (if VK_PRESENT_MODE_MAILBOX_KHR \<in> set availablePresentModes
      then VK_PRESENT_MODE_MAILBOX_KHR else VK_PRESENT_MODE_FIFO_KHR)"
  by (induction availablePresentModes) auto

lemma clamp_defined: "lo \<le> hi \<Longrightarrow> clamp v lo hi = Inr (max lo (min hi v))"
  by (auto simp: clamp_def max_def min_def)

text \<open>
  Claim C9. The current extent counts as defined when its width is not \<^verbatim>\<open>UINT32_MAX\<close>
  (the test the code makes); then \<open>chooseSwapExtent\<close> returns it verbatim, whatever the
  window's size. Otherwise, with minimum at most maximum in each component, it returns
  the window's pixel size (as converted to \<^verbatim>\<open>uint32_t\<close>) clamped component-wise into
  [minImageExtent, maxImageExtent]; a window of 50 x 50 with minimum 100 x 100 yields
  100 x 100.
\<close>

theorem chooseSwapExtent_current_or_clamped:
  "(width (currentExtent capabilities) \<noteq> - 1 \<longrightarrow>
      chooseSwapExtent windowSize capabilities = Inr (currentExtent capabilities))
   \<and> (width (currentExtent capabilities) = - 1
        \<and> width (minImageExtent capabilities) \<le> width (maxImageExtent capabilities)
        \<and> height (minImageExtent capabilities) \<le> height (maxImageExtent capabilities) \<longrightarrow>
      chooseSwapExtent windowSize capabilities =
        Inr \<lparr>width = max (width (minImageExtent capabilities))
                       (min (width (maxImageExtent capabilities)) (word_of_int (fst windowSize))),
             height = max (height (minImageExtent capabilities))
                        (min (height (maxImageExtent capabilities)) (word_of_int (snd windowSize)))\<rparr>)
   \<and> (width (currentExtent capabilities) = - 1 \<and> windowSize = (50, 50)
        \<and> minImageExtent capabilities = \<lparr>width = 100, height = 100\<rparr>
        \<and> 100 \<le> width (maxImageExtent capabilities)
        \<and> 100 \<le> height (maxImageExtent capabilities) \<longrightarrow>
      chooseSwapExtent windowSize capabilities = Inr \<lparr>width = 100, height = 100\<rparr>)"
proof -
  have small: "max 100 (min hi 50) = (100 :: u32)" if "100 \<le> hi" for hi :: u32
  proof -
    have "(50 :: u32) \<le> 100" by simp
    then have "50 \<le> hi" using that by (rule order_trans)
    then show ?thesis by (simp add: min_def max_def)
  qed
  show ?thesis
    by (auto simp: chooseSwapExtent_def clamp_defined small)
qed

text \<open>
  Witness of C9: a defined current extent of 1000 x 600 is returned for a window of
  50 x 50, and the undefined extent with minimum 100 x 100 gives 100 x 100.
\<close>

theorem chooseSwapExtent_current_or_clamped_witness:
  "width (currentExtent (surfaceCapabilities example_backend)) \<noteq> - 1
   \<and> chooseSwapExtent (50, 50) (surfaceCapabilities example_backend)
       = Inr \<lparr>width = 1000, height = 600\<rparr>
   \<and> width (currentExtent undefined_extent_capabilities) = - 1
   \<and> width (minImageExtent undefined_extent_capabilities)
       \<le> width (maxImageExtent undefined_extent_capabilities)
   \<and> height (minImageExtent undefined_extent_capabilities)
       \<le> height (maxImageExtent undefined_extent_capabilities)
   \<and> chooseSwapExtent (50, 50) undefined_extent_capabilities
       = Inr \<lparr>width = 100, height = 100\<rparr>"
  using chooseSwapExtent_current_or_clamped[of "surfaceCapabilities example_backend" "(50, 50)"]
    chooseSwapExtent_current_or_clamped[of undefined_extent_capabilities "(50, 50)"]
  by (simp add: example_backend_def undefined_extent_capabilities_def)

lemma imageCount_clamped:
  "imageCount capabilities =
     (if maxImageCount capabilities \<noteq> 0
      then min (minImageCount capabilities + 1) (maxImageCount capabilities)
      else minImageCount capabilities + 1)"
  by (auto simp: imageCount_def Let_def min_def word_greater_zero_iff)

lemma chooseSwapSurfaceFormat_returns:
  "availableFormats \<noteq> [] \<Longrightarrow>
   \<exists>surfaceFormat. chooseSwapSurfaceFormat availableFormats = Inr surfaceFormat"
  by (cases availableFormats) (auto simp: chooseSwapSurfaceFormat_def split: option.splits)

lemma createSwapChain_trace:
  assumes "createSwapChain b s = (r, s', c)"
  shows "(r = Inr () \<longrightarrow>
           (\<exists>createInfo. c = [CreateSwapchainKHR createInfo]
              \<and> ci_minImageCount createInfo = imageCount (surfaceCapabilities b)))
       \<and> (\<forall>createInfo. CreateSwapchainKHR createInfo \<in> set c \<longrightarrow>
             c = [CreateSwapchainKHR createInfo]
             \<and> ci_minImageCount createInfo = imageCount (surfaceCapabilities b))"
  using assms
  by (auto simp: createSwapChain_def Let_def split: sum.splits option.splits if_splits prod.splits)

lemma createSwapChain_requests:
  assumes "createSwapChain b s = (r, s', c)"
      and "surfaceFormats b \<noteq> []"
      and "chooseSwapExtent (windowSizeInPixels b) (surfaceCapabilities b) = Inr extent"
      and "findQueueFamilies (queueFamilyProperties b) (surfaceSupport b) = Inr (indices, n)"
      and "isComplete indices"
  shows "(\<exists>createInfo. c = [CreateSwapchainKHR createInfo]
            \<and> ci_minImageCount createInfo = imageCount (surfaceCapabilities b)
            \<and> ci_imageExtent createInfo = extent)
       \<and> (r = Inr () \<longleftrightarrow> fst (createSwapchainKHR b) = VK_SUCCESS)"
proof -
  from assms(2) obtain surfaceFormat
    where f: "chooseSwapSurfaceFormat (surfaceFormats b) = Inr surfaceFormat"
    using chooseSwapSurfaceFormat_returns by blast
  from assms(5) obtain g p where gp: "graphicsFamily indices = Some g" "presentFamily indices = Some p"
    by (auto simp: isComplete_def)
  from assms(1) show ?thesis
    by (auto simp: createSwapChain_def Let_def f assms(3) assms(4) gp split: if_splits)
qed

lemma unat_plus_one:
  fixes w :: u32
  assumes "w \<noteq> - 1"
  shows "unat (w + 1) = unat w + 1"
proof -
  have "unat w \<noteq> 2 ^ 32 - 1"
  proof
    assume "unat w = 2 ^ 32 - 1"
    then have "of_nat (unat w) = (of_nat (2 ^ 32 - 1) :: u32)" by simp
    then have "w = - 1" by simp
    with assms show False by simp
  qed
  moreover have "unat w < 2 ^ 32" using unsigned_less[of w] by simp
  ultimately have "unat w + unat (1 :: u32) < 2 ^ LENGTH(32)" by simp
  then have "unat (w + 1) = unat w + unat (1 :: u32)" by (rule iffD1[OF unat_add_lem])
  then show ?thesis by simp
qed

lemma imageCount_no_wrap:
  assumes "minImageCount capabilities \<noteq> - 1"
  shows "unat (imageCount capabilities) =
     (if maxImageCount capabilities \<noteq> 0
      then min (unat (minImageCount capabilities) + 1) (unat (maxImageCount capabilities))
      else unat (minImageCount capabilities) + 1)"
proof -
  have "unat (minImageCount capabilities + 1) = unat (minImageCount capabilities) + 1"
    using assms by (rule unat_plus_one)
  then show ?thesis
    by (auto simp: imageCount_clamped min_def word_le_nat_alt)
qed

text \<open>
  Claim C5. \<open>createSwapChain\<close> requests its images with one call of
  \<^verbatim>\<open>vkCreateSwapchainKHR\<close>, and the image count of that request is \<open>minImageCount + 1\<close>,
  lowered to \<open>maxImageCount\<close> when that bound is nonzero and smaller. The request is the
  only call of a \<open>createSwapChain\<close> that returns normally; it is made whenever the surface
  offers a format, the extent can be chosen and the queue families are complete, and
  then \<open>createSwapChain\<close> returns normally exactly if the driver accepts the request;
  whatever the outcome, no other request is in the trace. For a minimum of 2 and a
  maximum of 2 the count is 2. The sum is that of \<^verbatim>\<open>uint32_t\<close>: it is the number
  \<open>minImageCount + 1\<close> unless \<open>minImageCount\<close> is \<^verbatim>\<open>UINT32_MAX\<close>.
\<close>

theorem createSwapChain_image_count:
  assumes "createSwapChain b s = (r, s', c)"
  shows "(let capabilities = surfaceCapabilities b;
              count = (if maxImageCount capabilities \<noteq> 0
                       then min (minImageCount capabilities + 1) (maxImageCount capabilities)
                       else minImageCount capabilities + 1)
          in (r = Inr () \<longrightarrow>
                (\<exists>createInfo. c = [CreateSwapchainKHR createInfo]
                   \<and> ci_minImageCount createInfo = count))
           \<and> (surfaceFormats b \<noteq> []
                \<and> chooseSwapExtent (windowSizeInPixels b) capabilities = Inr extent
                \<and> findQueueFamilies (queueFamilyProperties b) (surfaceSupport b)
                    = Inr (indices, n)
                \<and> isComplete indices \<longrightarrow>
                (\<exists>createInfo. c = [CreateSwapchainKHR createInfo]
                   \<and> ci_minImageCount createInfo = count)
                \<and> (r = Inr () \<longleftrightarrow> fst (createSwapchainKHR b) = VK_SUCCESS))
           \<and> (\<forall>createInfo. CreateSwapchainKHR createInfo \<in> set c \<longrightarrow>
                c = [CreateSwapchainKHR createInfo] \<and> ci_minImageCount createInfo = count)
           \<and> (minImageCount capabilities = 2 \<and> maxImageCount capabilities = 2 \<longrightarrow> count = 2)
           \<and> (minImageCount capabilities \<noteq> - 1 \<longrightarrow>
                unat count =
                  (if maxImageCount capabilities \<noteq> 0
                   then min (unat (minImageCount capabilities) + 1)
                          (unat (maxImageCount capabilities))
                   else unat (minImageCount capabilities) + 1)))"
proof -
  note count = imageCount_clamped[of "surfaceCapabilities b"]
  note calls = createSwapChain_trace[OF assms, unfolded count]
  have req: "surfaceFormats b \<noteq> []
      \<and> chooseSwapExtent (windowSizeInPixels b) (surfaceCapabilities b) = Inr extent
      \<and> findQueueFamilies (queueFamilyProperties b) (surfaceSupport b) = Inr (indices, n)
      \<and> isComplete indices \<longrightarrow>
      (\<exists>createInfo. c = [CreateSwapchainKHR createInfo]
         \<and> ci_minImageCount createInfo =
             (if maxImageCount (surfaceCapabilities b) \<noteq> 0
              then min (minImageCount (surfaceCapabilities b) + 1)
                     (maxImageCount (surfaceCapabilities b))
              else minImageCount (surfaceCapabilities b) + 1))
      \<and> (r = Inr () \<longleftrightarrow> fst (createSwapchainKHR b) = VK_SUCCESS)"
    using createSwapChain_requests[OF assms, of extent indices n, unfolded count] by blast
  have two: "minImageCount (surfaceCapabilities b) = 2 \<and> maxImageCount (surfaceCapabilities b) = 2
      \<longrightarrow> (if maxImageCount (surfaceCapabilities b) \<noteq> 0
           then min (minImageCount (surfaceCapabilities b) + 1)
                  (maxImageCount (surfaceCapabilities b))
           else minImageCount (surfaceCapabilities b) + 1) = 2"
    by simp
  have nowrap: "minImageCount (surfaceCapabilities b) \<noteq> - 1 \<longrightarrow>
      unat (if maxImageCount (surfaceCapabilities b) \<noteq> 0
            then min (minImageCount (surfaceCapabilities b) + 1)
                   (maxImageCount (surfaceCapabilities b))
            else minImageCount (surfaceCapabilities b) + 1) =
        (if maxImageCount (surfaceCapabilities b) \<noteq> 0
         then min (unat (minImageCount (surfaceCapabilities b)) + 1)
                (unat (maxImageCount (surfaceCapabilities b)))
         else unat (minImageCount (surfaceCapabilities b)) + 1)"
    using imageCount_no_wrap[of "surfaceCapabilities b", unfolded count] by blast
  show ?thesis
    unfolding Let_def
    using calls req two nowrap by blast
qed

lemmas example_simps = example_backend_def example_renderer_def
  chooseSwapSurfaceFormat_def chooseSwapExtent_def findQueueFamilies_def imageCount_def
  graphics_capable_def isComplete_def VK_SUCCESS_def VK_FORMAT_B8G8R8A8_SRGB_def
  VK_COLOR_SPACE_SRGB_NONLINEAR_KHR_def VK_QUEUE_GRAPHICS_BIT_def VK_NULL_HANDLE_def
  VK_SHARING_MODE_EXCLUSIVE_def VK_PRESENT_MODE_FIFO_KHR_def VK_PRESENT_MODE_MAILBOX_KHR_def
  VK_ERROR_OUT_OF_DATE_KHR_def VK_SUBOPTIMAL_KHR_def INT_MAX_def
  VK_IMAGE_USAGE_COLOR_ATTACHMENT_BIT_def VK_COMPOSITE_ALPHA_OPAQUE_BIT_KHR_def VK_TRUE_def

lemma createSwapChain_example_outcome:
  "createSwapChain example_backend example_renderer =
     (Inr (),
      example_renderer
        \<lparr>m_swapChain := 110, m_swapChainImages := [111, 112], m_swapChainImageFormat := 50,
         m_swapChainExtent := \<lparr>width = 1000, height = 600\<rparr>\<rparr>,
      [CreateSwapchainKHR example_createInfo])"
  by (simp add: example_simps createSwapChain_def example_createInfo_def Let_def)

lemma createSwapChain_unbounded_outcome:
  "createSwapChain (example_backend\<lparr>surfaceCapabilities := undefined_extent_capabilities\<rparr>)
       example_renderer =
     (Inr (),
      example_renderer
        \<lparr>m_swapChain := 110, m_swapChainImages := [111, 112], m_swapChainImageFormat := 50,
         m_swapChainExtent := \<lparr>width = 1000, height = 600\<rparr>\<rparr>,
      [CreateSwapchainKHR (example_createInfo\<lparr>ci_minImageCount := 3\<rparr>)])"
  by (simp add: example_simps createSwapChain_def example_createInfo_def Let_def
      undefined_extent_capabilities_def clamp_def)

text \<open>
  Witness of C5: the example surface has minimum 2 and maximum 2, its driver accepts
  the request, and the chain is requested with 2 images; with minimum 2 and no maximum
  it is requested with 3.
\<close>

theorem createSwapChain_image_count_witness:
  "createSwapChain example_backend example_renderer =
     (Inr (),
      example_renderer
        \<lparr>m_swapChain := 110, m_swapChainImages := [111, 112], m_swapChainImageFormat := 50,
         m_swapChainExtent := \<lparr>width = 1000, height = 600\<rparr>\<rparr>,
      [CreateSwapchainKHR example_createInfo])
   \<and> surfaceFormats example_backend \<noteq> []
   \<and> chooseSwapExtent (windowSizeInPixels example_backend) (surfaceCapabilities example_backend)
       = Inr \<lparr>width = 1000, height = 600\<rparr>
   \<and> findQueueFamilies (queueFamilyProperties example_backend) (surfaceSupport example_backend)
       = Inr (\<lparr>graphicsFamily = Some 0, presentFamily = Some 0\<rparr>, 1)
   \<and> isComplete \<lparr>graphicsFamily = Some 0, presentFamily = Some 0\<rparr>
   \<and> fst (createSwapchainKHR example_backend) = VK_SUCCESS
   \<and> minImageCount (surfaceCapabilities example_backend) = 2
   \<and> maxImageCount (surfaceCapabilities example_backend) = 2
   \<and> ci_minImageCount example_createInfo = 2
   \<and> createSwapChain (example_backend\<lparr>surfaceCapabilities := undefined_extent_capabilities\<rparr>)
         example_renderer =
       (Inr (),
        example_renderer
          \<lparr>m_swapChain := 110, m_swapChainImages := [111, 112], m_swapChainImageFormat := 50,
           m_swapChainExtent := \<lparr>width = 1000, height = 600\<rparr>\<rparr>,
        [CreateSwapchainKHR (example_createInfo\<lparr>ci_minImageCount := 3\<rparr>)])
   \<and> minImageCount undefined_extent_capabilities = 2
   \<and> maxImageCount undefined_extent_capabilities = 0
   \<and> ci_minImageCount (example_createInfo\<lparr>ci_minImageCount := 3\<rparr>) = 3"
  using createSwapChain_image_count[OF createSwapChain_example_outcome,
      of "\<lparr>width = 1000, height = 600\<rparr>" "\<lparr>graphicsFamily = Some 0, presentFamily = Some 0\<rparr>" 1]
    createSwapChain_image_count[OF createSwapChain_unbounded_outcome,
      of "\<lparr>width = 1000, height = 600\<rparr>" "\<lparr>graphicsFamily = Some 0, presentFamily = Some 0\<rparr>" 1]
    createSwapChain_example_outcome createSwapChain_unbounded_outcome
  by (simp add: example_simps example_createInfo_def undefined_extent_capabilities_def)

section \<open>Properties of the swap chain's recreation\<close>

lemma then_doE:
  assumes "then_do m f = (r, s', c)"
  obtains (failed) e where "m = (Inl e, s', c)" "r = Inl e"
        | (continued) a s1 c1 c2 where "m = (Inr a, s1, c1)" "f a s1 = (r, s', c2)" "c = c1 @ c2"
  using assms by (auto simp: then_do_def split: prod.splits sum.splits)

lemma swap_chain_only_refl: "swap_chain_only s s"
  by (simp add: swap_chain_only_def)

lemma swap_chain_only_trans: "swap_chain_only s s1 \<Longrightarrow> swap_chain_only s1 s2 \<Longrightarrow> swap_chain_only s s2"
  unfolding swap_chain_only_def
  by (cases s, cases s1, cases s2) simp

lemma swap_chain_only_fields:
  assumes "swap_chain_only s s'"
  shows "m_initialized s' = m_initialized s" "m_instance s' = m_instance s"
    "m_debugMessenger s' = m_debugMessenger s" "m_surface s' = m_surface s"
    "m_device s' = m_device s" "m_graphicsQueue s' = m_graphicsQueue s"
    "m_presentQueue s' = m_presentQueue s" "m_renderPass s' = m_renderPass s"
    "m_pipelineLayout s' = m_pipelineLayout s" "m_graphicsPipeline s' = m_graphicsPipeline s"
    "m_commandPool s' = m_commandPool s" "m_commandBuffers s' = m_commandBuffers s"
    "m_imageAvailableSemaphores s' = m_imageAvailableSemaphores s"
    "m_renderFinishedSemaphores s' = m_renderFinishedSemaphores s"
    "m_inFlightFences s' = m_inFlightFences s" "m_currentFrame s' = m_currentFrame s"
    "m_framebufferResized s' = m_framebufferResized s"
  using assms unfolding swap_chain_only_def
  by (cases s, cases s', simp)+

lemma createSwapChain_frame: "createSwapChain b s = (r, s', c) \<Longrightarrow> swap_chain_only s s'"
  by (auto simp: createSwapChain_def swap_chain_only_def Let_def
           split: sum.splits option.splits if_splits prod.splits)

lemma createImageViews_frame: "createImageViews b s = (r, s', c) \<Longrightarrow> swap_chain_only s s'"
  by (auto simp: createImageViews_def swap_chain_only_def split: prod.splits)

lemma createFramebuffers_frame: "createFramebuffers b s = (r, s', c) \<Longrightarrow> swap_chain_only s s'"
  by (auto simp: createFramebuffers_def swap_chain_only_def split: prod.splits)

lemma recreateSwapChain_frame:
  assumes "recreateSwapChain b s = (r, s', c)"
  shows "swap_chain_only s s'"
  using assms unfolding recreateSwapChain_def
  by (elim then_doE; clarsimp)
     (blast intro: swap_chain_only_refl swap_chain_only_trans createSwapChain_frame
        createImageViews_frame createFramebuffers_frame)+


lemma createImageViews_loop_calls:
  "createImageViews_loop b fmt imgs i views = (r, views', c) \<Longrightarrow>
     prefix c (map (\<lambda>img. CreateImageView img fmt) imgs)
     \<and> (r = Inr () \<longrightarrow> c = map (\<lambda>img. CreateImageView img fmt) imgs)"
  by (induction imgs arbitrary: i views r views' c)
     (auto split: if_splits prod.splits)

lemma createFramebuffers_loop_calls:
  "createFramebuffers_loop b rp ext vs i fbs = (r, fbs', c) \<Longrightarrow>
     prefix c (map (\<lambda>view. CreateFramebuffer rp view ext) vs)
     \<and> (r = Inr () \<longrightarrow> c = map (\<lambda>view. CreateFramebuffer rp view ext) vs)"
  by (induction vs arbitrary: i fbs r fbs' c)
     (auto split: if_splits prod.splits)

lemma createSwapChain_calls:
  "createSwapChain b s = (r, s', c) \<Longrightarrow>
     (c = [] \<and> r \<noteq> Inr ()) \<or> (\<exists>createInfo. c = [CreateSwapchainKHR createInfo])"
  by (auto simp: createSwapChain_def Let_def split: sum.splits option.splits if_splits prod.splits)

lemma createImageViews_calls:
  "createImageViews b s = (r, s', c) \<Longrightarrow>
     prefix c (map (\<lambda>img. CreateImageView img (m_swapChainImageFormat s')) (m_swapChainImages s'))
     \<and> (r = Inr () \<longrightarrow> c = map (\<lambda>img. CreateImageView img (m_swapChainImageFormat s')) (m_swapChainImages s'))"
  by (auto simp: createImageViews_def split: prod.splits dest: createImageViews_loop_calls)

lemma createFramebuffers_calls:
  "createFramebuffers b s = (r, s', c) \<Longrightarrow>
     m_swapChainImageViews s' = m_swapChainImageViews s \<and> m_swapChainExtent s' = m_swapChainExtent s
     \<and> m_swapChainImages s' = m_swapChainImages s \<and> m_swapChainImageFormat s' = m_swapChainImageFormat s
     \<and> prefix c (map (\<lambda>view. CreateFramebuffer (m_renderPass s) view (m_swapChainExtent s)) (m_swapChainImageViews s))
     \<and> (r = Inr () \<longrightarrow> c = map (\<lambda>view. CreateFramebuffer (m_renderPass s) view (m_swapChainExtent s)) (m_swapChainImageViews s))"
  by (auto simp: createFramebuffers_def split: prod.splits dest: createFramebuffers_loop_calls)

lemma recreateSwapChain_unfold:
  "recreateSwapChain b s =
     (case createSwapChain b s of
        (Inl e, s1, c1) \<Rightarrow> (Inl e, s1, DeviceWaitIdle (m_device s) # cleanupSwapChain s @ c1)
      | (Inr _, s1, c1) \<Rightarrow>
          (case createImageViews b s1 of
             (Inl e, s2, c2) \<Rightarrow>
               (Inl e, s2, DeviceWaitIdle (m_device s) # cleanupSwapChain s @ c1 @ c2)
           | (Inr _, s2, c2) \<Rightarrow>
               (case createFramebuffers b s2 of
                  (r, s3, c3) \<Rightarrow>
                    (r, s3, DeviceWaitIdle (m_device s) # cleanupSwapChain s @ c1 @ c2 @ c3))))"
  by (simp add: recreateSwapChain_def then_do_def split: prod.splits sum.splits)

lemma recreateSwapChain_calls:
  assumes "recreateSwapChain b s = (r, s', c)"
  shows "\<exists>created. c = DeviceWaitIdle (m_device s) # cleanupSwapChain s @ created
     \<and> (\<exists>createInfo images fmt views extent.
           prefix created (creation_calls createInfo images fmt (m_renderPass s) views extent))
     \<and> (r = Inr () \<longrightarrow>
          (\<exists>createInfo. created = creation_calls createInfo (m_swapChainImages s')
             (m_swapChainImageFormat s') (m_renderPass s) (m_swapChainImageViews s')
             (m_swapChainExtent s')))"
proof -
  obtain r1 s1 c1 where cs: "createSwapChain b s = (r1, s1, c1)" by (cases "createSwapChain b s")
  have rp1: "m_renderPass s1 = m_renderPass s"
    using createSwapChain_frame[OF cs] by (rule swap_chain_only_fields)
  show ?thesis
  proof (cases r1)
    case (Inl e)
    with cs assms have c: "c = DeviceWaitIdle (m_device s) # cleanupSwapChain s @ c1" and r: "r = Inl e"
      by (simp_all add: recreateSwapChain_unfold)
    from createSwapChain_calls[OF cs]
    have "\<exists>createInfo. prefix c1 (creation_calls createInfo [] 0 (m_renderPass s) [] \<lparr>width = 0, height = 0\<rparr>)"
      by (auto simp: creation_calls_def)
    with c r show ?thesis by blast
  next
    case (Inr u)
    from createSwapChain_calls[OF cs] Inr obtain createInfo where c1: "c1 = [CreateSwapchainKHR createInfo]"
      by auto
    obtain r2 s2 c2 where iv: "createImageViews b s1 = (r2, s2, c2)" by (cases "createImageViews b s1")
    note ivc = createImageViews_calls[OF iv]
    have rp2: "m_renderPass s2 = m_renderPass s"
      using createImageViews_frame[OF iv] rp1 by (simp add: swap_chain_only_fields)
    show ?thesis
    proof (cases r2)
      case (Inl e)
      with cs iv \<open>r1 = Inr u\<close> assms
      have c: "c = DeviceWaitIdle (m_device s) # cleanupSwapChain s @ (c1 @ c2)" and r: "r = Inl e"
        by (simp_all add: recreateSwapChain_unfold)
      have "prefix (c1 @ c2) (creation_calls createInfo (m_swapChainImages s2)
               (m_swapChainImageFormat s2) (m_renderPass s) [] \<lparr>width = 0, height = 0\<rparr>)"
        using ivc unfolding c1 by (simp add: creation_calls_def)
      with c r show ?thesis by blast
    next
      case (Inr u2)
      obtain r3 s3 c3 where fb: "createFramebuffers b s2 = (r3, s3, c3)" by (cases "createFramebuffers b s2")
      note fbc = createFramebuffers_calls[OF fb]
      from cs iv fb \<open>r1 = Inr u\<close> Inr assms
      have c: "c = DeviceWaitIdle (m_device s) # cleanupSwapChain s @ (c1 @ c2 @ c3)"
        and r: "r = r3" and s': "s' = s3"
        by (simp_all add: recreateSwapChain_unfold)
      have c2: "c2 = map (\<lambda>img. CreateImageView img (m_swapChainImageFormat s2)) (m_swapChainImages s2)"
        using ivc Inr by simp
      have p: "prefix (c1 @ c2 @ c3) (creation_calls createInfo (m_swapChainImages s3)
               (m_swapChainImageFormat s3) (m_renderPass s) (m_swapChainImageViews s3) (m_swapChainExtent s3))"
        using fbc unfolding c1 c2 rp2 by (simp add: creation_calls_def)
      have e: "r3 = Inr () \<longrightarrow> c1 @ c2 @ c3 = creation_calls createInfo (m_swapChainImages s3)
               (m_swapChainImageFormat s3) (m_renderPass s) (m_swapChainImageViews s3) (m_swapChainExtent s3)"
        using fbc unfolding c1 c2 rp2 by (simp add: creation_calls_def)
      from c r s' p e show ?thesis by blast
    qed
  qed
qed


text \<open>
  Claim C7. The calls of \<open>recreateSwapChain\<close> are, in this order: the idle-wait on the
  device, the destruction of every framebuffer, of every image view and of the swap
  chain, and then creation calls, which always form a prefix of: the chain, one view per
  image, one framebuffer per view. When the recreation returns, they are exactly these
  calls for the new chain's images and views. Whether it returns or throws, the render
  pass, pipeline, pipeline layout, command pool, command buffers, semaphores and fences
  are unchanged; only the six swap chain members can differ.
\<close>

theorem recreateSwapChain_order_and_frame:
  assumes "recreateSwapChain b s = (r, s', calls)"
  shows "(\<exists>created.
           calls = [DeviceWaitIdle (m_device s)]
                   @ map DestroyFramebuffer (m_swapChainFramebuffers s)
                   @ map DestroyImageView (m_swapChainImageViews s)
                   @ [DestroySwapchainKHR (m_swapChain s)]
                   @ created
         \<and> (\<exists>createInfo images fmt views extent.
               prefix created (creation_calls createInfo images fmt (m_renderPass s) views extent))
         \<and> (r = Inr () \<longrightarrow>
              (\<exists>createInfo. created = creation_calls createInfo (m_swapChainImages s')
                 (m_swapChainImageFormat s') (m_renderPass s) (m_swapChainImageViews s')
                 (m_swapChainExtent s'))))
     \<and> m_renderPass s' = m_renderPass s
     \<and> m_graphicsPipeline s' = m_graphicsPipeline s
     \<and> m_pipelineLayout s' = m_pipelineLayout s
     \<and> m_commandPool s' = m_commandPool s
     \<and> m_commandBuffers s' = m_commandBuffers s
     \<and> m_imageAvailableSemaphores s' = m_imageAvailableSemaphores s
     \<and> m_renderFinishedSemaphores s' = m_renderFinishedSemaphores s
     \<and> m_inFlightFences s' = m_inFlightFences s
     \<and> swap_chain_only s s'"
  using recreateSwapChain_calls[OF assms] recreateSwapChain_frame[OF assms]
    swap_chain_only_fields[OF recreateSwapChain_frame[OF assms]]
  by (simp add: cleanupSwapChain_def)

lemma recreateSwapChain_example:
  "recreateSwapChain example_backend example_renderer
     = (Inr (), example_recreated, example_recreation_calls)"
  by (simp add: recreateSwapChain_unfold createSwapChain_def createImageViews_def
        createFramebuffers_def cleanupSwapChain_def resize_def example_simps
        example_createInfo_def example_recreated_def example_recreation_calls_def Let_def)

text \<open>
  Witness of C7: the example renderer's chain is rebuilt by the example driver; the
  calls are the idle-wait, six destructions in order and five creations in order, and
  the render pass and the command buffers are the old ones.
\<close>

theorem recreateSwapChain_order_and_frame_witness:
  "recreateSwapChain example_backend example_renderer
     = (Inr (), example_recreated, example_recreation_calls)
   \<and> m_renderPass example_recreated = m_renderPass example_renderer
   \<and> m_commandBuffers example_recreated = m_commandBuffers example_renderer
   \<and> swap_chain_only example_renderer example_recreated"
  using recreateSwapChain_order_and_frame[OF recreateSwapChain_example] recreateSwapChain_example
  by simp

section \<open>Properties of the single-precision arithmetic\<close>

text \<open>
  The conversion of a \<^verbatim>\<open>uint32_t\<close> to \<^verbatim>\<open>float\<close> is finite and not negative: the
  rounded value stays below \<open>2^33\<close>.
\<close>

lemma flog2_bounds: "0 < n \<Longrightarrow> 2 ^ flog2 n \<le> n \<and> n < 2 ^ Suc (flog2 n)"
proof (induction n rule: flog2.induct)
  case (1 n)
  show ?case
  proof (cases "n < 2")
    case True
    with 1(2) have "n = 1" by simp
    then show ?thesis by (simp add: flog2.simps)
  next
    case False
    then have "0 < n div 2" by simp
    from 1(1)[OF False this] have "2 ^ flog2 (n div 2) \<le> n div 2" "n div 2 < 2 ^ Suc (flog2 (n div 2))"
      by simp_all
    moreover have "flog2 n = Suc (flog2 (n div 2))" using False by (subst flog2.simps) simp
    ultimately show ?thesis by (simp; linarith)
  qed
qed

lemma round_even_le: "of_int (round_even y) \<le> y + 1"
proof -
  have "of_int (round_even y) \<le> (of_int \<lfloor>y\<rfloor> :: rat) + 1"
    by (simp add: round_even_def Let_def)
  also have "\<dots> \<le> y + 1" by simp
  finally show ?thesis .
qed

lemma round_even_nonneg: "0 \<le> y \<Longrightarrow> 0 \<le> round_even y"
  by (auto simp: round_even_def Let_def)

lemma pow2_pos: "0 < pow2 e"
  by (simp add: pow2_def)

lemma quantum_le:
  assumes "0 < n"
  shows "pow2 (int (flog2 n) - 23) \<le> of_nat n"
proof (cases "23 \<le> flog2 n")
  case True
  then have "pow2 (int (flog2 n) - 23) = 2 ^ (flog2 n - 23)"
    by (simp add: pow2_def nat_diff_distrib')
  also have "\<dots> \<le> (2 :: rat) ^ flog2 n" by (rule power_increasing) simp_all
  also have "\<dots> \<le> of_nat n"
    using flog2_bounds[OF assms] by (metis of_nat_le_iff of_nat_numeral of_nat_power)
  finally show ?thesis .
next
  case False
  then have "pow2 (int (flog2 n) - 23) = 1 / 2 ^ nat (23 - int (flog2 n))"
    by (simp add: pow2_def)
  also have "\<dots> \<le> (1 :: rat)" by (simp add: divide_le_eq_1)
  also have "\<dots> \<le> of_nat n" using assms by simp
  finally show ?thesis .
qed

lemma round32_of_nat_finite:
  assumes "n < 2 ^ 32"
  shows "\<exists>w. round32 (of_nat n) = Finite w \<and> 0 \<le> w"
proof (cases "n = 0")
  case True
  then show ?thesis by (simp add: round32_def)
next
  case False
  then have pos: "0 < n" by simp
  define a :: rat where "a = of_nat n"
  have a1: "1 \<le> a" using pos by (simp add: a_def)
  have e: "exponent a = int (flog2 n)"
    using a1 by (simp add: exponent_def a_def)
  define q where "q = pow2 (max (exponent a) (- 126) - 23)"
  have q: "q = pow2 (int (flog2 n) - 23)" by (simp add: q_def e max_def)
  have qpos: "0 < q" by (simp add: q_def pow2_pos)
  have qle: "q \<le> a" unfolding q a_def by (rule quantum_le[OF pos])
  define m where "m = of_int (round_even (a / q)) * q"
  have "m \<le> (a / q + 1) * q"
    unfolding m_def using round_even_le[of "a / q"] qpos by (simp add: mult_right_mono)
  also have "\<dots> = a + q" using qpos by (simp add: field_simps)
  also have "\<dots> \<le> 2 * a" using qle by simp
  also have "\<dots> < 2 ^ 128"
  proof -
    have "a < 2 ^ 32" using assms unfolding a_def
      by (metis of_nat_less_iff of_nat_numeral of_nat_power)
    then have "2 * a < 2 * 2 ^ 32" by simp
    also have "\<dots> \<le> (2 :: rat) ^ 128" by simp
    finally show ?thesis .
  qed
  finally have small: "\<not> 2 ^ 128 \<le> m" by simp
  have nonneg: "0 \<le> m"
    unfolding m_def using round_even_nonneg[of "a / q"] qpos a1 by simp
  have "round32 a = Finite m"
    using a1 small by (simp add: round32_def Let_def q_def[symmetric] m_def[symmetric] abs_if sgn_if)
  with nonneg show ?thesis unfolding a_def by blast
qed

lemma float_of_u32_finite: "\<exists>w. float_of_u32 n = Finite w \<and> 0 \<le> w"
  unfolding float_of_u32_def
  by (rule round32_of_nat_finite) (use unsigned_less[of n] in simp)

text \<open>
  The exponent brackets its argument, rounding moves a value by at most half a unit in
  the last place, and integers below \<open>2^24\<close> are converted exactly.
\<close>

lemma pow2_nat: "pow2 (int n) = 2 ^ n"
  by (simp add: pow2_def)

lemma pow2_neg: "pow2 (- int n) = 1 / 2 ^ n"
  by (auto simp: pow2_def)

lemma exponent_bounds:
  assumes "0 < a"
  shows "pow2 (exponent a) \<le> a \<and> a < pow2 (exponent a + 1)"
proof (cases "1 \<le> a")
  case True
  define n where "n = nat \<lfloor>a\<rfloor>"
  have fl: "1 \<le> \<lfloor>a\<rfloor>" using True by (simp add: le_floor_iff)
  then have pos: "0 < n" by (simp add: n_def)
  have n: "(of_nat n :: rat) = of_int \<lfloor>a\<rfloor>" using fl by (simp add: n_def)
  have lo: "(of_nat n :: rat) \<le> a" unfolding n by (rule of_int_floor_le)
  have hi: "a < of_nat (Suc n)" unfolding of_nat_Suc n by linarith
  from flog2_bounds[OF pos] have b1: "2 ^ flog2 n \<le> n" and b2: "Suc n \<le> 2 ^ Suc (flog2 n)"
    by simp_all
  have "(2 :: rat) ^ flog2 n = of_nat (2 ^ flog2 n)" by simp
  also have "\<dots> \<le> of_nat n" using b1 by (rule of_nat_mono)
  finally have "(2 :: rat) ^ flog2 n \<le> of_nat n" .
  then have l: "(2 :: rat) ^ flog2 n \<le> a" using lo by (rule order_trans)
  have "(of_nat (Suc n) :: rat) \<le> of_nat (2 ^ Suc (flog2 n))" using b2 by (rule of_nat_mono)
  also have "\<dots> = (2 :: rat) ^ Suc (flog2 n)" by simp
  finally have "(of_nat (Suc n) :: rat) \<le> 2 ^ Suc (flog2 n)" .
  with hi have h: "a < (2 :: rat) ^ Suc (flog2 n)" by (rule less_le_trans)
  have e: "exponent a = int (flog2 n)" using True by (simp add: exponent_def n_def)
  have e1: "exponent a + 1 = int (Suc (flog2 n))" by (simp add: e)
  show ?thesis unfolding e1 pow2_nat unfolding e pow2_nat using l h by simp
next
  case False
  then have a1: "a < 1" by simp
  define c where "c = nat \<lceil>1 / a\<rceil>"
  have inv: "1 < 1 / a" using assms a1 by simp
  then have cl: "2 \<le> \<lceil>1 / a\<rceil>" by (simp add: le_ceiling_iff)
  then have c2: "2 \<le> c" unfolding c_def by linarith
  define k where "k = c - 1"
  have pos: "0 < k" using c2 by (simp add: k_def)
  have c: "(of_nat c :: rat) = of_int \<lceil>1 / a\<rceil>" using cl by (simp add: c_def)
  have kc: "(of_nat k :: rat) = of_nat c - 1" using c2 by (simp add: k_def of_nat_diff)
  have up: "1 / a \<le> of_nat c" unfolding c by (rule le_of_int_ceiling)
  have dn: "of_nat k < 1 / a" unfolding kc c by linarith
  from flog2_bounds[OF pos] have b1: "2 ^ flog2 k \<le> k" and b3: "k < 2 ^ Suc (flog2 k)"
    by simp_all
  from b3 have b2: "c \<le> 2 ^ Suc (flog2 k)" using c2 unfolding k_def by linarith
  have "(2 :: rat) ^ flog2 k = of_nat (2 ^ flog2 k)" by simp
  also have "\<dots> \<le> of_nat k" using b1 by (rule of_nat_mono)
  finally have "(2 :: rat) ^ flog2 k \<le> of_nat k" .
  then have l: "(2 :: rat) ^ flog2 k < 1 / a" using dn by (rule le_less_trans)
  have "(of_nat c :: rat) \<le> of_nat (2 ^ Suc (flog2 k))" using b2 by (rule of_nat_mono)
  also have "\<dots> = (2 :: rat) ^ Suc (flog2 k)" by simp
  finally have "(of_nat c :: rat) \<le> 2 ^ Suc (flog2 k)" .
  with up have h: "1 / a \<le> (2 :: rat) ^ Suc (flog2 k)" by (rule order_trans)
  have p: "(0 :: rat) < 2 ^ m" for m by simp
  from h have lo: "1 / 2 ^ Suc (flog2 k) \<le> a"
    using assms p[of "Suc (flog2 k)"] by (simp add: field_simps del: power_Suc)
  from l have hi: "a < 1 / 2 ^ flog2 k"
    using assms p[of "flog2 k"] by (simp add: field_simps)
  have e: "exponent a = - int (Suc (flog2 k))"
    using False by (simp add: exponent_def k_def c_def)
  have e1: "exponent a + 1 = - int (flog2 k)" by (simp add: e)
  show ?thesis unfolding e1 pow2_neg unfolding e pow2_neg using lo hi by simp
qed

lemma round_even_error: "\<bar>of_int (round_even y) - y\<bar> \<le> 1 / 2"
proof -
  define d where "d = y - of_int \<lfloor>y\<rfloor>"
  have d: "0 \<le> d" "d < 1" unfolding d_def by linarith+
  have y: "y = of_int \<lfloor>y\<rfloor> + d" by (simp add: d_def)
  have r: "round_even y = \<lfloor>y\<rfloor> \<and> d \<le> 1 / 2 \<or> round_even y = \<lfloor>y\<rfloor> + 1 \<and> 1 / 2 \<le> d"
    unfolding round_even_def Let_def d_def[symmetric] by auto
  then show ?thesis
  proof
    assume "round_even y = \<lfloor>y\<rfloor> \<and> d \<le> 1 / 2"
    then have "of_int (round_even y) - y = - d" "d \<le> 1 / 2" by (simp_all add: d_def)
    with d show ?thesis by (simp add: abs_if)
  next
    assume "round_even y = \<lfloor>y\<rfloor> + 1 \<and> 1 / 2 \<le> d"
    then have "of_int (round_even y) - y = 1 - d" "1 / 2 \<le> d" by (simp_all add: d_def)
    with d show ?thesis by (simp add: abs_if)
  qed
qed

lemma round32_error:
  assumes "round32 x = Finite w"
  shows "\<bar>w - x\<bar> \<le> pow2 (max (exponent \<bar>x\<bar>) (- 126) - 23) / 2"
proof (cases "x = 0")
  case True
  with assms show ?thesis using pow2_pos[of "max (exponent 0) (- 126) - 23"]
    by (simp add: round32_def)
next
  case False
  define q where "q = pow2 (max (exponent \<bar>x\<bar>) (- 126) - 23)"
  have qpos: "0 < q" by (simp add: q_def pow2_pos)
  define m where "m = of_int (round_even (\<bar>x\<bar> / q)) * q"
  from assms False have w: "w = sgn x * m"
    by (simp add: round32_def Let_def q_def[symmetric] m_def[symmetric] split: if_splits)
  have "m - \<bar>x\<bar> = (of_int (round_even (\<bar>x\<bar> / q)) - \<bar>x\<bar> / q) * q"
    using qpos by (simp add: m_def left_diff_distrib)
  then have "\<bar>m - \<bar>x\<bar>\<bar> = \<bar>of_int (round_even (\<bar>x\<bar> / q)) - \<bar>x\<bar> / q\<bar> * \<bar>q\<bar>"
    by (simp only: abs_mult)
  also have "\<dots> = \<bar>of_int (round_even (\<bar>x\<bar> / q)) - \<bar>x\<bar> / q\<bar> * q"
    using qpos by simp
  also have "\<dots> \<le> 1 / 2 * q"
    using round_even_error[of "\<bar>x\<bar> / q"] qpos by (intro mult_right_mono) simp_all
  finally have "\<bar>m - \<bar>x\<bar>\<bar> \<le> q / 2" by simp
  moreover have "\<bar>w - x\<bar> = \<bar>m - \<bar>x\<bar>\<bar>"
    using False unfolding w by (cases "0 < x") (simp_all add: sgn_if abs_if)
  ultimately show ?thesis by (simp add: q_def)
qed

lemma round_even_of_int: "round_even (of_int k) = k"
  by (simp add: round_even_def Let_def)

lemma float_of_u32_exact:
  assumes "unat n < 2 ^ 24"
  shows "float_of_u32 n = Finite (of_nat (unat n))"
proof (cases "unat n = 0")
  case True
  then show ?thesis by (simp add: float_of_u32_def round32_def)
next
  case False
  define k where "k = unat n"
  have pos: "0 < k" using False by (simp add: k_def)
  have k24: "k < 2 ^ 24" using assms by (simp add: k_def)
  define a :: rat where "a = of_nat k"
  have a1: "1 \<le> a" using pos by (simp add: a_def)
  have e: "exponent a = int (flog2 k)" using a1 by (simp add: exponent_def a_def)
  have le: "flog2 k \<le> 23"
  proof (rule ccontr)
    assume "\<not> flog2 k \<le> 23"
    then have "24 \<le> flog2 k" by simp
    then have "(2::nat) ^ 24 \<le> 2 ^ flog2 k" by (rule power_increasing) simp
    with flog2_bounds[OF pos] k24 show False by linarith
  qed
  define q where "q = pow2 (max (exponent a) (- 126) - 23)"
  have q: "q = 1 / 2 ^ (23 - flog2 k)"
  proof (cases "flog2 k = 23")
    case True
    then show ?thesis by (simp add: q_def e pow2_def)
  next
    case False
    with le have "flog2 k < 23" by simp
    then show ?thesis by (simp add: q_def e pow2_def max_def nat_diff_distrib')
  qed
  have aq: "a / q = of_int (int (k * 2 ^ (23 - flog2 k)))" by (simp add: q a_def)
  have r: "round_even (a / q) = int (k * 2 ^ (23 - flog2 k))"
    unfolding aq by (rule round_even_of_int)
  have m: "of_int (round_even (a / q)) * q = a"
    unfolding r by (simp add: q a_def)
  have small: "\<not> (2::rat) ^ 128 \<le> a"
  proof -
    have "a < 2 ^ 24" using k24 unfolding a_def
      by (metis of_nat_less_iff of_nat_numeral of_nat_power)
    also have "\<dots> \<le> (2 :: rat) ^ 128" by simp
    finally show ?thesis by simp
  qed
  have "round32 a = Finite a"
    using a1 small by (simp add: round32_def Let_def q_def[symmetric] m abs_if sgn_if)
  then show ?thesis by (simp add: float_of_u32_def a_def k_def)
qed

text \<open>
  The target ratio \<^verbatim>\<open>4.0f / 3.0f\<close> is \<open>11184811 / 2^23\<close>, a little above \<open>4/3\<close>; the
  viewports of three extents.
\<close>

lemma target_ratio: "fdiv (Finite 4) (Finite 3) = Finite (11184811 / 8388608)"
  by code_simp

lemma float_of_u32_600: "float_of_u32 600 = Finite 600"
  unfolding float_of_u32_def by simp code_simp

lemma float_of_u32_800: "float_of_u32 800 = Finite 800"
  unfolding float_of_u32_def by simp code_simp

lemma float_of_u32_1000: "float_of_u32 1000 = Finite 1000"
  unfolding float_of_u32_def by simp code_simp

lemma letterbox_viewport_800_600:
  "letterbox_viewport \<lparr>width = 800, height = 600\<rparr> =
     \<lparr>vp_x = Finite 0, vp_y = Finite 0, vp_width = Finite 800, vp_height = Finite 600,
      vp_minDepth = Finite 0, vp_maxDepth = Finite 1\<rparr>"
  unfolding letterbox_viewport_def VkExtent2D.simps float_of_u32_600 float_of_u32_800 target_ratio
  by code_simp

lemma letterbox_viewport_1000_600:
  "letterbox_viewport \<lparr>width = 1000, height = 600\<rparr> =
     \<lparr>vp_x = Finite 100, vp_y = Finite 0, vp_width = Finite 800, vp_height = Finite 600,
      vp_minDepth = Finite 0, vp_maxDepth = Finite 1\<rparr>"
  unfolding letterbox_viewport_def VkExtent2D.simps float_of_u32_600 float_of_u32_1000 target_ratio
  by code_simp

lemma letterbox_viewport_800_1000:
  "letterbox_viewport \<lparr>width = 800, height = 1000\<rparr> =
     \<lparr>vp_x = Finite 0, vp_y = Finite 200, vp_width = Finite 800, vp_height = Finite 600,
      vp_minDepth = Finite 0, vp_maxDepth = Finite 1\<rparr>"
  unfolding letterbox_viewport_def VkExtent2D.simps float_of_u32_800 float_of_u32_1000 target_ratio
  by code_simp

text \<open>
  The two branches of the viewport. The offset on the axis that is not scaled is zero,
  since the extent's components are finite.
\<close>

lemma fsub_self: "fsub (Finite h) (Finite h) = Finite 0"
  by (simp add: round32_def)

lemma fdiv_zero_two: "fdiv (Finite 0) (Finite 2) = Finite 0"
  by (simp add: round32_def)

lemma letterbox_viewport_cases:
  "(let W = float_of_u32 (width extent); H = float_of_u32 (height extent);
        ratio = fdiv (Finite 4) (Finite 3); viewport = letterbox_viewport extent
    in (fgt (fdiv W H) ratio \<longrightarrow>
          vp_width viewport = fmul H ratio \<and> vp_height viewport = H \<and> vp_y viewport = Finite 0)
     \<and> (\<not> fgt (fdiv W H) ratio \<longrightarrow>
          vp_width viewport = W \<and> vp_height viewport = fdiv W ratio \<and> vp_x viewport = Finite 0)
     \<and> vp_x viewport = fdiv (fsub W (vp_width viewport)) (Finite 2)
     \<and> vp_y viewport = fdiv (fsub H (vp_height viewport)) (Finite 2)
     \<and> vp_minDepth viewport = Finite 0 \<and> vp_maxDepth viewport = Finite 1)"
proof -
  obtain w where w: "float_of_u32 (width extent) = Finite w" using float_of_u32_finite by blast
  obtain h where h: "float_of_u32 (height extent) = Finite h" using float_of_u32_finite by blast
  show ?thesis
    by (simp add: letterbox_viewport_def Let_def w h fsub_self fdiv_zero_two
        del: fdiv.simps fsub.simps fmul.simps fgt.simps)
qed

text \<open>
  In the normal range a rounded value differs from the exact one by at most one part in
  \<open>2^24\<close>.
\<close>

lemma pow2_powi: "pow2 e = 2 powi e"
  by (simp add: pow2_def power_int_def inverse_eq_divide power_one_over)

lemma pow2_add: "pow2 (a + b) = pow2 a * pow2 b"
  by (simp add: pow2_powi power_int_add)

lemma pow2_mono: "a \<le> b \<Longrightarrow> pow2 a \<le> pow2 b"
  by (simp add: pow2_powi power_int_increasing)

lemma round32_normal:
  assumes lo: "pow2 (- 126) \<le> x" and hi: "x < 2 ^ 64"
  shows "\<exists>w. round32 x = Finite w \<and> \<bar>w - x\<bar> \<le> x / 2 ^ 24"
proof -
  have pos: "0 < x" using lo pow2_pos[of "- 126"] by linarith
  define e where "e = exponent x"
  have eb: "pow2 e \<le> x" "x < pow2 (e + 1)" using exponent_bounds[OF pos] by (simp_all add: e_def)
  have e126: "- 126 \<le> e"
  proof (rule ccontr)
    assume "\<not> - 126 \<le> e"
    then have "e + 1 \<le> - 126" by simp
    then have "pow2 (e + 1) \<le> pow2 (- 126)" by (rule pow2_mono)
    with eb(2) lo show False by linarith
  qed
  define q where "q = pow2 (max (exponent x) (- 126) - 23)"
  have "q = pow2 (e + (- 23))" using e126 pos by (simp add: q_def e_def max_def)
  also have "\<dots> = pow2 e * pow2 (- 23)" by (rule pow2_add)
  also have "pow2 (- 23) = 1 / 2 ^ 23" by (simp add: pow2_def)
  finally have q: "q = pow2 e / 2 ^ 23" by simp
  have qle: "q \<le> x / 2 ^ 23" unfolding q using eb(1) by (simp add: divide_right_mono)
  have qpos: "0 < q" by (simp add: q_def pow2_pos)
  define m where "m = of_int (round_even (x / q)) * q"
  have "m - x = (of_int (round_even (x / q)) - x / q) * q"
    using qpos pos by (simp add: m_def left_diff_distrib)
  then have "\<bar>m - x\<bar> = \<bar>of_int (round_even (x / q)) - x / q\<bar> * \<bar>q\<bar>"
    by (simp only: abs_mult)
  also have "\<dots> = \<bar>of_int (round_even (x / q)) - x / q\<bar> * q" using qpos by simp
  also have "\<dots> \<le> 1 / 2 * q"
    using round_even_error[of "x / q"] qpos by (intro mult_right_mono) simp_all
  also have "\<dots> \<le> x / 2 ^ 24" using qle by simp
  finally have err: "\<bar>m - x\<bar> \<le> x / 2 ^ 24" .
  have "m \<le> x + x / 2 ^ 24" using err by linarith
  also have "\<dots> \<le> 2 * x" using pos by simp
  also have "\<dots> < 2 * 2 ^ 64" using hi by simp
  also have "\<dots> \<le> (2 :: rat) ^ 128" by simp
  finally have small: "\<not> 2 ^ 128 \<le> m" by simp
  have "round32 x = Finite m"
    using pos small by (simp add: round32_def Let_def q_def[symmetric] m_def[symmetric])
  with err show ?thesis by blast
qed


text \<open>
  The viewport is finite for every extent, and its scaled side is the extent's other
  side times (or divided by) \<open>4/3\<close> up to one part in \<open>2^22\<close>: the two roundings of the
  ratio and of the product (or quotient).
\<close>

lemma pow2_126_small: "pow2 (- 126) \<le> 1 / 16777216"
proof -
  have "pow2 (- 126) \<le> pow2 (- 24)" by (rule pow2_mono) simp
  then show ?thesis by (simp add: pow2_def)
qed

lemma float_of_u32_range:
  "\<exists>w. float_of_u32 n = Finite w \<and> (w = 0 \<or> 1 / 2 \<le> w) \<and> w < 2 ^ 33"
proof (cases "unat n = 0")
  case True
  then show ?thesis by (simp add: float_of_u32_def round32_def)
next
  case False
  define x :: rat where "x = of_nat (unat n)"
  have "1 \<le> unat n" using False by simp
  then have "(of_nat 1 :: rat) \<le> of_nat (unat n)" by (rule of_nat_mono)
  then have x1: "1 \<le> x" by (simp add: x_def)
  have "unat n < 2 ^ 32" using unsigned_less[of n] by simp
  then have "(of_nat (unat n) :: rat) < of_nat (2 ^ 32)" by (rule of_nat_less_iff[THEN iffD2])
  then have x32: "x < 2 ^ 32" by (simp add: x_def)
  have lo: "pow2 (- 126) \<le> x" using pow2_126_small x1 by linarith
  have hi: "x < 2 ^ 64" using x32 by simp
  from round32_normal[OF lo hi] obtain w where w: "round32 x = Finite w" "\<bar>w - x\<bar> \<le> x / 2 ^ 24"
    by blast
  have "x / 2 ^ 24 \<le> x / 2" using x1 by simp
  with w(2) have "x / 2 \<le> w" "w \<le> 2 * x" using x1 by linarith+
  with x1 x32 have "1 / 2 \<le> w" "w < 2 ^ 33" by simp_all
  with w(1) show ?thesis by (auto simp: float_of_u32_def x_def)
qed

lemma fmul_ratio:
  assumes "h = 0 \<or> 1 / 2 \<le> h" and "h < 2 ^ 33"
  shows "\<exists>v. fmul (Finite h) (Finite (11184811 / 8388608)) = Finite v
           \<and> \<bar>v - h * (4 / 3)\<bar> \<le> h / 2 ^ 22"
proof (cases "h = 0")
  case True
  then show ?thesis by (simp add: round32_def)
next
  case False
  with assms(1) have h: "1 / 2 \<le> h" by simp
  define x where "x = h * (11184811 / 8388608)"
  have lo: "pow2 (- 126) \<le> x" using pow2_126_small h by (simp add: x_def)
  have hi: "x < 2 ^ 64" using assms(2) h by (simp add: x_def)
  from round32_normal[OF lo hi] obtain v where v: "round32 x = Finite v" "\<bar>v - x\<bar> \<le> x / 2 ^ 24"
    by blast
  have "\<bar>v - h * (4 / 3)\<bar> \<le> \<bar>v - x\<bar> + \<bar>x - h * (4 / 3)\<bar>" by simp
  also have "\<bar>x - h * (4 / 3)\<bar> = h / 25165824" using h by (simp add: x_def abs_if)
  also have "\<bar>v - x\<bar> + h / 25165824 \<le> x / 2 ^ 24 + h / 25165824" using v(2) by simp
  also have "\<dots> \<le> h / 2 ^ 22" using h by (simp add: x_def)
  finally have "\<bar>v - h * (4 / 3)\<bar> \<le> h / 2 ^ 22" by simp
  with v(1) show ?thesis by (simp add: x_def)
qed

lemma fdiv_ratio:
  assumes "w = 0 \<or> 1 / 2 \<le> w" and "w < 2 ^ 33"
  shows "\<exists>v. fdiv (Finite w) (Finite (11184811 / 8388608)) = Finite v
           \<and> \<bar>v - w / (4 / 3)\<bar> \<le> w / 2 ^ 22"
proof (cases "w = 0")
  case True
  then show ?thesis by (simp add: round32_def)
next
  case False
  with assms(1) have h: "1 / 2 \<le> w" by simp
  define x where "x = w / (11184811 / 8388608)"
  have lo: "pow2 (- 126) \<le> x" using pow2_126_small h by (simp add: x_def)
  have hi: "x < 2 ^ 64" using assms(2) h by (simp add: x_def)
  from round32_normal[OF lo hi] obtain v where v: "round32 x = Finite v" "\<bar>v - x\<bar> \<le> x / 2 ^ 24"
    by blast
  have "\<bar>v - w / (4 / 3)\<bar> \<le> \<bar>v - x\<bar> + \<bar>x - w / (4 / 3)\<bar>" by simp
  also have "\<bar>x - w / (4 / 3)\<bar> = w / 44739244" using h by (simp add: x_def abs_if)
  also have "\<bar>v - x\<bar> + w / 44739244 \<le> x / 2 ^ 24 + w / 44739244" using v(2) by simp
  also have "\<dots> \<le> w / 2 ^ 22" using h by (simp add: x_def)
  finally have "\<bar>v - w / (4 / 3)\<bar> \<le> w / 2 ^ 22" by simp
  with v(1) show ?thesis by (simp add: x_def)
qed

lemma letterbox_viewport_accuracy:
  "\<exists>w h vw vh.
      float_of_u32 (width extent) = Finite w \<and> float_of_u32 (height extent) = Finite h
    \<and> vp_width (letterbox_viewport extent) = Finite vw
    \<and> vp_height (letterbox_viewport extent) = Finite vh
    \<and> (fgt (fdiv (Finite w) (Finite h)) (fdiv (Finite 4) (Finite 3))
         \<longrightarrow> vh = h \<and> \<bar>vw - h * (4 / 3)\<bar> \<le> h / 2 ^ 22)
    \<and> (\<not> fgt (fdiv (Finite w) (Finite h)) (fdiv (Finite 4) (Finite 3))
         \<longrightarrow> vw = w \<and> \<bar>vh - w / (4 / 3)\<bar> \<le> w / 2 ^ 22)"
proof -
  obtain w where w: "float_of_u32 (width extent) = Finite w" "w = 0 \<or> 1 / 2 \<le> w" "w < 2 ^ 33"
    using float_of_u32_range by blast
  obtain h where h: "float_of_u32 (height extent) = Finite h" "h = 0 \<or> 1 / 2 \<le> h" "h < 2 ^ 33"
    using float_of_u32_range by blast
  from fmul_ratio[OF h(2,3)] obtain vw
    where vw: "fmul (Finite h) (Finite (11184811 / 8388608)) = Finite vw"
      "\<bar>vw - h * (4 / 3)\<bar> \<le> h / 2 ^ 22" by blast
  from fdiv_ratio[OF w(2,3)] obtain vh
    where vh: "fdiv (Finite w) (Finite (11184811 / 8388608)) = Finite vh"
      "\<bar>vh - w / (4 / 3)\<bar> \<le> w / 2 ^ 22" by blast
  note cases = letterbox_viewport_cases[of extent, unfolded Let_def w(1) h(1) target_ratio]
  show ?thesis
  proof (cases "fgt (fdiv (Finite w) (Finite h)) (Finite (11184811 / 8388608))")
    case True
    with cases have "vp_width (letterbox_viewport extent) = Finite vw"
      "vp_height (letterbox_viewport extent) = Finite h"
      by (simp_all add: vw(1) del: fdiv.simps fmul.simps fgt.simps)
    with True w(1) h(1) vw(2) show ?thesis unfolding target_ratio by blast
  next
    case False
    with cases have "vp_width (letterbox_viewport extent) = Finite w"
      "vp_height (letterbox_viewport extent) = Finite vh"
      by (simp_all add: vh(1) del: fdiv.simps fmul.simps fgt.simps)
    with False w(1) h(1) vh(2) show ?thesis unfolding target_ratio by blast
  qed
qed


text \<open>
  The comparison with the ratio. Between 1 and 2 the values of \<^verbatim>\<open>float\<close> are the
  multiples of \<open>2^-23\<close>, and the ratio is the least of them above \<open>4/3\<close>. A quotient
  \<open>w / h\<close> of integers that exceeds \<open>4/3\<close> does so by at least \<open>1 / (3 h)\<close>, so for heights
  up to \<open>2^21\<close> it reaches the next value after the ratio, and the comparison in
  \<^verbatim>\<open>float\<close> decides as the exact one does.
\<close>

lemma round_even_floor: "round_even y = \<lfloor>y\<rfloor> \<or> round_even y = \<lfloor>y\<rfloor> + 1 \<and> of_int \<lfloor>y\<rfloor> < y"
proof -
  define d where "d = y - of_int \<lfloor>y\<rfloor>"
  have "round_even y = \<lfloor>y\<rfloor> \<or> round_even y = \<lfloor>y\<rfloor> + 1 \<and> 0 < d"
    unfolding round_even_def Let_def d_def[symmetric] by auto
  then show ?thesis by (auto simp: d_def)
qed

lemma round_even_ge: "of_int k \<le> y \<Longrightarrow> k \<le> round_even y"
proof -
  assume "of_int k \<le> y"
  then have "k \<le> \<lfloor>y\<rfloor>" by (simp add: le_floor_iff)
  with round_even_floor[of y] show ?thesis by auto
qed

lemma round_even_le_int: "y \<le> of_int k \<Longrightarrow> round_even y \<le> k"
proof -
  assume y: "y \<le> of_int k"
  then have f: "\<lfloor>y\<rfloor> \<le> k" by (simp add: floor_le_iff)
  from round_even_floor[of y] show ?thesis
  proof
    assume "round_even y = \<lfloor>y\<rfloor>"
    with f show ?thesis by simp
  next
    assume a: "round_even y = \<lfloor>y\<rfloor> + 1 \<and> of_int \<lfloor>y\<rfloor> < y"
    with y have "(of_int \<lfloor>y\<rfloor> :: rat) < of_int k" by linarith
    then have "\<lfloor>y\<rfloor> < k" by (simp only: of_int_less_iff)
    with a show ?thesis by simp
  qed
qed

lemma round32_binade:
  assumes "1 \<le> x" and "x < 2"
  shows "round32 x = Finite (of_int (round_even (x * 2 ^ 23)) / 2 ^ 23)"
proof -
  have fl: "\<lfloor>x\<rfloor> = 1" using assms by (simp add: floor_eq_iff)
  have e: "exponent x = 0" using assms(1) by (simp add: exponent_def fl flog2.simps)
  have q: "pow2 (max (exponent x) (- 126) - 23) = 1 / 2 ^ 23" by (simp add: e pow2_def)
  have "of_int (round_even (x * 2 ^ 23)) \<le> x * 2 ^ 23 + 1" by (rule round_even_le)
  also have "\<dots> < 2 * 2 ^ 23 + 1" using assms(2) by simp
  finally have "(of_int (round_even (x * 2 ^ 23)) :: rat) / 2 ^ 23 < 4" by simp
  then have small: "\<not> 2 ^ 128 \<le> (of_int (round_even (x * 2 ^ 23)) :: rat) / 2 ^ 23" by simp
  have pos: "0 < x" using assms(1) by simp
  show ?thesis
    unfolding round32_def Let_def abs_of_pos[OF pos] q
    using pos small by simp
qed

lemma round32_ge:
  assumes "11184812 / 8388608 \<le> x" and "x < 2 ^ 64"
  shows "\<exists>v. round32 x = Finite v \<and> 11184811 / 8388608 < v"
proof (cases "x < 2")
  case True
  have x1: "1 \<le> x" using assms(1) by simp
  have "(of_int 11184812 :: rat) \<le> x * 2 ^ 23" using assms(1) by simp
  then have "11184812 \<le> round_even (x * 2 ^ 23)" by (rule round_even_ge)
  then have "(of_int 11184812 :: rat) \<le> of_int (round_even (x * 2 ^ 23))"
    by (simp only: of_int_le_iff)
  then have "11184811 / 8388608 < (of_int (round_even (x * 2 ^ 23)) :: rat) / 2 ^ 23" by simp
  then show ?thesis unfolding round32_binade[OF x1 True] by blast
next
  case False
  then have x2: "2 \<le> x" by simp
  have lo: "pow2 (- 126) \<le> x" using pow2_126_small x2 by linarith
  from round32_normal[OF lo assms(2)] obtain v
    where v: "round32 x = Finite v" "\<bar>v - x\<bar> \<le> x / 2 ^ 24" by blast
  have "x / 2 ^ 24 \<le> x / 4" using x2 by simp
  with v(2) have "3 * x / 4 \<le> v" by linarith
  with x2 have "11184811 / 8388608 < v" by simp
  with v(1) show ?thesis by blast
qed

lemma round32_le:
  assumes "x = 0 \<or> pow2 (- 126) \<le> x" and "x \<le> 4 / 3"
  shows "\<exists>v. round32 x = Finite v \<and> v \<le> 11184811 / 8388608"
proof (cases "x = 0")
  case True
  then show ?thesis by (simp add: round32_def)
next
  case False
  with assms(1) have lo: "pow2 (- 126) \<le> x" by simp
  show ?thesis
  proof (cases "1 \<le> x")
    case True
    have x2: "x < 2" using assms(2) by simp
    have "x * 2 ^ 23 \<le> (of_int 11184811 :: rat)" using assms(2) by simp
    then have "round_even (x * 2 ^ 23) \<le> 11184811" by (rule round_even_le_int)
    then have "(of_int (round_even (x * 2 ^ 23)) :: rat) \<le> of_int 11184811"
      by (simp only: of_int_le_iff)
    then have "(of_int (round_even (x * 2 ^ 23)) :: rat) / 2 ^ 23 \<le> 11184811 / 8388608" by simp
    then show ?thesis unfolding round32_binade[OF True x2] by blast
  next
    case False
    then have x1: "x < 1" by simp
    then have hi: "x < 2 ^ 64" by simp
    from round32_normal[OF lo hi] obtain v
      where v: "round32 x = Finite v" "\<bar>v - x\<bar> \<le> x / 2 ^ 24" by blast
    have pos: "0 < x" using lo pow2_pos[of "- 126"] by linarith
    have "x / 2 ^ 24 \<le> x / 4" using pos by simp
    with v(2) have "v \<le> 5 * x / 4" by linarith
    with x1 have "v \<le> 11184811 / 8388608" by simp
    with v(1) show ?thesis by blast
  qed
qed

lemma letterbox_branch:
  assumes w24: "unat (width extent) < 2 ^ 24" and h21: "unat (height extent) \<le> 2 ^ 21"
  shows "fgt (fdiv (float_of_u32 (width extent)) (float_of_u32 (height extent)))
             (fdiv (Finite 4) (Finite 3))
         \<longleftrightarrow> 4 * unat (height extent) < 3 * unat (width extent)"
proof -
  define wn where "wn = unat (width extent)"
  define hn where "hn = unat (height extent)"
  define w :: rat where "w = of_nat wn"
  define h :: rat where "h = of_nat hn"
  have h24: "unat (height extent) < 2 ^ 24" using h21 by simp
  have W: "float_of_u32 (width extent) = Finite w"
    unfolding w_def wn_def by (rule float_of_u32_exact[OF w24])
  have H: "float_of_u32 (height extent) = Finite h"
    unfolding h_def hn_def by (rule float_of_u32_exact[OF h24])
  have w0: "0 \<le> w" by (simp add: w_def)
  have wlt: "w < 2 ^ 24"
  proof -
    have "(of_nat wn :: rat) < of_nat (2 ^ 24)" using w24 unfolding wn_def
      by (rule of_nat_less_iff[THEN iffD2])
    then show ?thesis by (simp add: w_def)
  qed
  have hle: "h \<le> 2 ^ 21"
  proof -
    have "(of_nat hn :: rat) \<le> of_nat (2 ^ 21)" using h21 unfolding hn_def by (rule of_nat_mono)
    then show ?thesis by (simp add: h_def)
  qed
  have cross: "4 * hn < 3 * wn \<longleftrightarrow> 4 * h < 3 * w"
  proof -
    have "4 * h < 3 * w \<longleftrightarrow> (of_nat (4 * hn) :: rat) < of_nat (3 * wn)"
      by (simp add: h_def w_def)
    also have "\<dots> \<longleftrightarrow> 4 * hn < 3 * wn" by (rule of_nat_less_iff)
    finally show ?thesis by simp
  qed
  have goal: "fgt (fdiv (Finite w) (Finite h)) (Finite (11184811 / 8388608)) \<longleftrightarrow> 4 * h < 3 * w"
  proof (cases "hn = 0")
    case True
    then have "h = 0" by (simp add: h_def)
    then show ?thesis using w0 by auto
  next
    case False
    then have "1 \<le> hn" by simp
    then have "(of_nat 1 :: rat) \<le> of_nat hn" by (rule of_nat_mono)
    then have h1: "1 \<le> h" by (simp add: h_def)
    then have hpos: "0 < h" by simp
    have div: "fdiv (Finite w) (Finite h) = round32 (w / h)" using hpos by simp
    show ?thesis
    proof (cases "4 * hn < 3 * wn")
      case True
      then have "4 * hn + 1 \<le> 3 * wn" by simp
      then have "(of_nat (4 * hn + 1) :: rat) \<le> of_nat (3 * wn)" by (rule of_nat_mono)
      then have "4 * h + 1 \<le> 3 * w" by (simp add: h_def w_def)
      then have "(4 * h + 1) / 3 \<le> w" by simp
      then have "(4 * h + 1) / 3 / h \<le> w / h" using hpos by (simp only: divide_right_mono less_imp_le)
      moreover have "(4 * h + 1) / 3 / h = 4 / 3 + 1 / (3 * h)" using hpos by (simp add: field_simps)
      ultimately have "4 / 3 + 1 / (3 * h) \<le> w / h" by simp
      moreover have "1 / (3 * 2 ^ 21) \<le> 1 / (3 * h)" using hle hpos by (simp add: field_simps)
      ultimately have ge: "11184812 / 8388608 \<le> w / h" by simp
      have "1 * w \<le> h * w" using h1 w0 by (rule mult_right_mono)
      then have "w / h \<le> w" using hpos by (simp add: field_simps)
      with wlt have lt: "w / h < 2 ^ 64" by simp
      from round32_ge[OF ge lt] True show ?thesis unfolding div cross by auto
    next
      case False
      then have nlt: "\<not> 4 * h < 3 * w" by (simp add: cross)
      then have le: "w / h \<le> 4 / 3" using hpos by (simp add: field_simps)
      have zero: "w / h = 0 \<or> pow2 (- 126) \<le> w / h"
      proof (cases "wn = 0")
        case True
        then show ?thesis by (simp add: w_def)
      next
        case False
        then have "1 \<le> wn" by simp
        then have "(of_nat 1 :: rat) \<le> of_nat wn" by (rule of_nat_mono)
        then have w1: "1 \<le> w" by (simp add: w_def)
        have "1 / 2 ^ 21 \<le> 1 / h" using hle hpos by (simp add: field_simps)
        also have "1 / h \<le> w / h" using w1 hpos by (simp add: divide_right_mono)
        finally have "1 / 2 ^ 21 \<le> w / h" .
        with pow2_126_small have "pow2 (- 126) \<le> w / h" by simp
        then show ?thesis by simp
      qed
      from round32_le[OF zero le] nlt show ?thesis unfolding div by auto
    qed
  qed
  show ?thesis unfolding W H target_ratio cross[unfolded wn_def hn_def] using goal .
qed

section \<open>Executing a frame\<close>

lemmas stmt_defs = then_do_def vk_def vector_at_def throw_def returns_def

lemma recordCommandBuffer_state:
  "recordCommandBuffer b cb i s = (r, s', c) \<Longrightarrow> s' = s"
  by (auto simp: recordCommandBuffer_def stmt_defs split: if_splits)

lemma drawFrame_stale:
  assumes "fst (acquireNextImageKHR b) = VK_ERROR_OUT_OF_DATE_KHR"
      and "unat (m_currentFrame s) < length (m_inFlightFences s)"
      and "unat (m_currentFrame s) < length (m_imageAvailableSemaphores s)"
  shows "drawFrame b s =
     (case recreateSwapChain b s of
        (r, s', c) \<Rightarrow>
          (map_sum id (\<lambda>_. Frame_aborted) r, s',
           WaitForFences (m_inFlightFences s ! unat (m_currentFrame s))
           # AcquireNextImageKHR (m_swapChain s)
               (m_imageAvailableSemaphores s ! unat (m_currentFrame s))
           # c))"
  using assms
  by (simp add: drawFrame_def stmt_defs Let_def split: prod.splits sum.splits)

lemma drawFrame_first_call:
  assumes "unat (m_currentFrame s) < length (m_inFlightFences s)"
  shows "\<exists>rest. snd (snd (drawFrame b s)) = WaitForFences (m_inFlightFences s ! unat (m_currentFrame s)) # rest"
  using assms
  by (simp add: drawFrame_def stmt_defs split: prod.splits sum.splits)

lemma recreate_keeps:
  "recreateSwapChain b s = (r, s', c) \<Longrightarrow>
     m_commandBuffers s' = m_commandBuffers s \<and> m_currentFrame s' = m_currentFrame s
     \<and> m_framebufferResized s' = m_framebufferResized s
     \<and> m_inFlightFences s' = m_inFlightFences s
     \<and> m_imageAvailableSemaphores s' = m_imageAvailableSemaphores s"
  by (simp add: swap_chain_only_fields[OF recreateSwapChain_frame])

lemma drawFrame_currentFrame:
  assumes "drawFrame b s = (r, s', c)"
  shows "m_commandBuffers s' = m_commandBuffers s
     \<and> m_currentFrame s' =
         (if r = Inr Frame_completed
          then of_nat (unat (m_currentFrame s + 1) mod length (m_commandBuffers s))
          else m_currentFrame s)"
  using assms
  by (auto simp: drawFrame_def stmt_defs Let_def
      split: if_splits prod.splits sum.splits
      dest!: recordCommandBuffer_state recreate_keeps)

lemma then_do_vk: "then_do (vk c s) f = after_calls [c] (f () s)"
  by (simp add: then_do_def vk_def after_calls_def)

lemma then_do_vector_at:
  "then_do (vector_at v i s) f = (if i < length v then f (v ! i) s else (Inl Undefined_behaviour, s, []))"
  by (simp add: then_do_def vector_at_def split: prod.splits)

lemma then_do_throw: "then_do (throw e s) f = (Inl e, s, [])"
  by (simp add: then_do_def throw_def)

lemma then_do_returns: "then_do (returns a s) f = f a s"
  by (simp add: then_do_def returns_def split: prod.splits)

lemma then_do_if: "then_do (if c then x else y) f = (if c then then_do x f else then_do y f)"
  by simp

lemma then_do_after_calls: "then_do (after_calls cs m) f = after_calls cs (then_do m f)"
  by (auto simp: then_do_def after_calls_def split: prod.splits sum.splits)

lemma after_calls_after_calls: "after_calls cs (after_calls ds x) = after_calls (cs @ ds) x"
  by (simp add: after_calls_def split: prod.splits)

lemma after_calls_if:
  "after_calls cs (if c then x else y) = (if c then after_calls cs x else after_calls cs y)"
  by simp

lemma after_calls_tuple: "after_calls cs (r, s, c) = (r, s, cs @ c)"
  by (simp add: after_calls_def)

lemma after_calls_eq:
  "after_calls cs x = (r, s', c) \<longleftrightarrow> (\<exists>c'. x = (r, s', c') \<and> c = cs @ c')"
  by (cases x) (auto simp: after_calls_def)

lemmas exec = then_do_vk then_do_vector_at then_do_throw then_do_returns then_do_if
  then_do_after_calls after_calls_after_calls after_calls_if after_calls_tuple
  throw_def returns_def Let_def

lemma recordCommandBuffer_exec:
  "recordCommandBuffer b cb idx s =
     (if beginCommandBuffer b \<noteq> VK_SUCCESS
      then (Inl (Runtime_error ''VulkanRenderer::recordCommandBuffer()''), s, [BeginCommandBuffer cb])
      else if \<not> unat idx < length (m_swapChainFramebuffers s)
      then (Inl Undefined_behaviour, s, [BeginCommandBuffer cb])
      else (if endCommandBuffer b \<noteq> VK_SUCCESS
            then Inl (Runtime_error ''VulkanRenderer::recordCommandBuffer()'') else Inr (),
            s,
            [BeginCommandBuffer cb,
             CmdBeginRenderPass cb (m_renderPass s) (m_swapChainFramebuffers s ! unat idx)
               (m_swapChainExtent s),
             CmdBindPipeline cb (m_graphicsPipeline s),
             CmdSetViewport cb (letterbox_viewport (m_swapChainExtent s)),
             CmdSetScissor cb (m_swapChainExtent s), CmdDraw cb 3 1 0 0,
             CmdEndRenderPass cb, EndCommandBuffer cb]))"
  by (simp add: recordCommandBuffer_def exec)

lemma then_do_record:
  "then_do (recordCommandBuffer b cb idx s) f =
     (if beginCommandBuffer b \<noteq> VK_SUCCESS
      then (Inl (Runtime_error ''VulkanRenderer::recordCommandBuffer()''), s, [BeginCommandBuffer cb])
      else if \<not> unat idx < length (m_swapChainFramebuffers s)
      then (Inl Undefined_behaviour, s, [BeginCommandBuffer cb])
      else if endCommandBuffer b \<noteq> VK_SUCCESS
      then (Inl (Runtime_error ''VulkanRenderer::recordCommandBuffer()''), s,
            [BeginCommandBuffer cb,
             CmdBeginRenderPass cb (m_renderPass s) (m_swapChainFramebuffers s ! unat idx)
               (m_swapChainExtent s),
             CmdBindPipeline cb (m_graphicsPipeline s),
             CmdSetViewport cb (letterbox_viewport (m_swapChainExtent s)),
             CmdSetScissor cb (m_swapChainExtent s), CmdDraw cb 3 1 0 0,
             CmdEndRenderPass cb, EndCommandBuffer cb])
      else after_calls
            [BeginCommandBuffer cb,
             CmdBeginRenderPass cb (m_renderPass s) (m_swapChainFramebuffers s ! unat idx)
               (m_swapChainExtent s),
             CmdBindPipeline cb (m_graphicsPipeline s),
             CmdSetViewport cb (letterbox_viewport (m_swapChainExtent s)),
             CmdSetScissor cb (m_swapChainExtent s), CmdDraw cb 3 1 0 0,
             CmdEndRenderPass cb, EndCommandBuffer cb] (f () s))"
  by (simp add: recordCommandBuffer_exec then_do_def after_calls_def)

lemma drawFrame_exec:
  "drawFrame b s =
     (let cf = unat (m_currentFrame s);
          fence = m_inFlightFences s ! cf;
          imageAvailable = m_imageAvailableSemaphores s ! cf;
          commandBuffer = m_commandBuffers s ! cf;
          renderFinished = m_renderFinishedSemaphores s ! cf;
          imageIndex = snd (acquireNextImageKHR b);
          acquired = [WaitForFences fence, AcquireNextImageKHR (m_swapChain s) imageAvailable];
          reset = acquired @ [ResetFences fence, ResetCommandBuffer commandBuffer];
          recorded = reset @ record_calls s commandBuffer imageIndex;
          submitted = recorded @ [QueueSubmit (m_graphicsQueue s) imageAvailable commandBuffer
                                    renderFinished fence]
      in
      if \<not> cf < length (m_inFlightFences s) then (Inl Undefined_behaviour, s, [])
      else if \<not> cf < length (m_imageAvailableSemaphores s)
      then (Inl Undefined_behaviour, s, [WaitForFences fence])
      else if fst (acquireNextImageKHR b) = VK_ERROR_OUT_OF_DATE_KHR
      then after_calls acquired (then_do (recreateSwapChain b s) (\<lambda>_. returns Frame_aborted))
      else if fst (acquireNextImageKHR b) \<noteq> VK_SUCCESS
              \<and> fst (acquireNextImageKHR b) \<noteq> VK_SUBOPTIMAL_KHR
      then (Inl (Runtime_error ''VulkanRenderer::drawFrame()''), s, acquired)
      else if \<not> cf < length (m_commandBuffers s)
      then (Inl Undefined_behaviour, s, acquired @ [ResetFences fence])
      else if beginCommandBuffer b \<noteq> VK_SUCCESS
      then (Inl (Runtime_error ''VulkanRenderer::recordCommandBuffer()''), s,
            reset @ [BeginCommandBuffer commandBuffer])
      else if \<not> unat imageIndex < length (m_swapChainFramebuffers s)
      then (Inl Undefined_behaviour, s, reset @ [BeginCommandBuffer commandBuffer])
      else if endCommandBuffer b \<noteq> VK_SUCCESS
      then (Inl (Runtime_error ''VulkanRenderer::recordCommandBuffer()''), s, recorded)
      else if \<not> cf < length (m_renderFinishedSemaphores s)
      then (Inl Undefined_behaviour, s, recorded)
      else if queueSubmit b \<noteq> VK_SUCCESS
      then (Inl (Runtime_error ''VulkanRenderer::drawFrame()''), s, submitted)
      else after_calls
             (submitted @ [QueuePresentKHR (m_presentQueue s) renderFinished (m_swapChain s)
                            imageIndex])
             (then_do
                (if queuePresentKHR b = VK_ERROR_OUT_OF_DATE_KHR
                    \<or> queuePresentKHR b = VK_SUBOPTIMAL_KHR \<or> m_framebufferResized s
                 then recreateSwapChain b (s\<lparr>m_framebufferResized := False\<rparr>)
                 else if queuePresentKHR b \<noteq> VK_SUCCESS
                 then throw (Runtime_error ''VulkanRenderer::drawFrame()'') s
                 else returns () s)
                (\<lambda>_ s. if length (m_commandBuffers s) = 0 then throw Undefined_behaviour s
                       else returns Frame_completed
                              (s\<lparr>m_currentFrame :=
                                  of_nat (unat (m_currentFrame s + 1)
                                            mod length (m_commandBuffers s))\<rparr>))))"
  by (simp add: drawFrame_def exec then_do_record record_calls_def)


lemma recreateSwapChain_calls_kind:
  assumes "recreateSwapChain b s = (r, s', c)"
  shows "ResetFences f \<notin> set c \<and> WaitForFences f \<notin> set c
       \<and> QueueSubmit q w cb sg fe \<notin> set c \<and> QueuePresentKHR q w sc i \<notin> set c"
proof -
  from recreateSwapChain_calls[OF assms] obtain created createInfo images fmt views extent
    where c: "c = DeviceWaitIdle (m_device s) # cleanupSwapChain s @ created"
      and p: "prefix created (creation_calls createInfo images fmt (m_renderPass s) views extent)"
    by blast
  from p have "set created \<subseteq> set (creation_calls createInfo images fmt (m_renderPass s) views extent)"
    by (rule set_mono_prefix)
  then show ?thesis
    unfolding c by (auto simp: creation_calls_def cleanupSwapChain_def)
qed

lemma then_do_recreate:
  assumes "then_do (recreateSwapChain b s) f = (r, s', c)"
      and "\<And>a s1. snd (snd (f a s1)) = []"
      and "\<And>a s1. m_framebufferResized (fst (snd (f a s1))) = m_framebufferResized s1"
  shows "c = snd (snd (recreateSwapChain b s))
     \<and> m_framebufferResized s' = m_framebufferResized s"
proof -
  obtain r0 s0 c0 where rc: "recreateSwapChain b s = (r0, s0, c0)"
    by (cases "recreateSwapChain b s")
  note keep = recreate_keeps[OF rc]
  show ?thesis
  proof (cases r0)
    case (Inl e)
    with assms(1) rc keep show ?thesis by (simp add: then_do_def)
  next
    case (Inr a)
    obtain r1 s1 c1 where f: "f a s0 = (r1, s1, c1)" by (cases "f a s0")
    from assms(2)[of a s0] assms(3)[of a s0] f have "c1 = []" "m_framebufferResized s1 = m_framebufferResized s0"
      by simp_all
    with assms(1) rc keep Inr f show ?thesis by (simp add: then_do_def)
  qed
qed

lemma drawFrame_presented:
  assumes df: "drawFrame b s = (r, s', c)"
      and pr: "QueuePresentKHR q w sc i \<in> set c"
      and fl: "m_framebufferResized s"
  shows "\<not> m_framebufferResized s'
     \<and> (\<exists>before. c = before @ QueuePresentKHR q w sc i
            # snd (snd (recreateSwapChain b (s\<lparr>m_framebufferResized := False\<rparr>))))"
proof -
  have no: "QueuePresentKHR q w sc i \<notin> set (snd (snd (recreateSwapChain b t)))" for t
    using recreateSwapChain_calls_kind[of b t "fst (recreateSwapChain b t)"
        "fst (snd (recreateSwapChain b t))" "snd (snd (recreateSwapChain b t))"]
    by simp
  have ab: "then_do (recreateSwapChain b t) (\<lambda>_. returns Frame_aborted) = (r, s', c') \<Longrightarrow>
      c' = snd (snd (recreateSwapChain b t)) \<and> m_framebufferResized s' = m_framebufferResized t" for t c'
    apply (rule then_do_recreate)
      apply assumption
     apply (simp add: returns_def)
    apply (simp add: returns_def)
    done
  have fin: "then_do (recreateSwapChain b t)
        (\<lambda>_ s. if m_commandBuffers s = [] then throw Undefined_behaviour s
               else returns Frame_completed
                      (s\<lparr>m_currentFrame :=
                          of_nat (unat (m_currentFrame s + 1) mod length (m_commandBuffers s))\<rparr>))
        = (r, s', c') \<Longrightarrow>
      c' = snd (snd (recreateSwapChain b t)) \<and> m_framebufferResized s' = m_framebufferResized t" for t c'
    apply (rule then_do_recreate)
      apply assumption
     apply (simp add: returns_def throw_def)
    apply (simp add: returns_def throw_def)
    done
  from df pr fl show ?thesis
    unfolding drawFrame_exec Let_def
    by (auto simp: after_calls_eq record_calls_def no split: if_splits dest!: ab fin)
qed

lemmas eval_simps = letterbox_viewport_1000_600
  example_simps stale_backend_def example_recreated_def
  example_recreation_calls_def example_createInfo_def
  recreateSwapChain_unfold createSwapChain_def createImageViews_def createFramebuffers_def
  cleanupSwapChain_def resize_def drawFrame_exec record_calls_def after_calls_def then_do_def
  throw_def returns_def setFramebufferResized_def Let_def

section \<open>The viewport\<close>

lemma recordCommandBuffer_viewport_calls:
  assumes "recordCommandBuffer b cb idx s = (r, s', c)"
  shows "(r = Inr () \<longleftrightarrow> beginCommandBuffer b = VK_SUCCESS
            \<and> unat idx < length (m_swapChainFramebuffers s) \<and> endCommandBuffer b = VK_SUCCESS)
     \<and> (beginCommandBuffer b = VK_SUCCESS \<and> unat idx < length (m_swapChainFramebuffers s)
          \<longrightarrow> c = record_calls s cb idx)
     \<and> (\<forall>cb' v. CmdSetViewport cb' v \<in> set c
          \<longrightarrow> cb' = cb \<and> v = letterbox_viewport (m_swapChainExtent s))"
  using assms unfolding recordCommandBuffer_exec
  by (auto simp: record_calls_def split: if_splits)

text \<open>
  Claim C6. \<open>recordCommandBuffer\<close> sets the viewport once, on the command buffer it
  records, between binding the pipeline and setting the scissor; it does so whenever
  the recording has begun and the framebuffer of the image exists, which is the case
  in every recording that returns normally. The viewport is computed from the swap
  chain's extent in \<^verbatim>\<open>float\<close>. Let \<open>W\<close> and \<open>H\<close> be the extent's width and height as
  \<^verbatim>\<open>float\<close> (exact below \<open>2^24\<close>) and let the ratio be \<^verbatim>\<open>4.0f / 3.0f\<close>, which is
  \<open>11184811 / 2^23\<close>.

  \<^item> If \<open>W / H\<close> exceeds the ratio, the viewport's width is \<open>H\<close> times the ratio, its
    height is \<open>H\<close> and its vertical offset is zero; otherwise its width is \<open>W\<close>, its
    height is \<open>W\<close> divided by the ratio and its horizontal offset is zero.
  \<^item> For a width below \<open>2^24\<close> and a height up to \<open>2^21\<close> the comparison decides exactly
    as \<open>width / height > 4/3\<close> does on the integers (\<open>4 height < 3 width\<close>, which also
    covers a zero height).
  \<^item> The viewport's width and height are finite for every extent, and the scaled side
    is \<open>H * 4/3\<close> (or \<open>W / (4/3)\<close>) up to one part in \<open>2^22\<close>.
  \<^item> The offsets are half the difference between the extent and the viewport on each
    axis, and the depth range is 0 to 1.
  \<^item> The extent 800 x 600 gives the whole extent at offset (0, 0), 1000 x 600 gives
    800 x 600 at offset (100, 0), and 800 x 1000 gives 800 x 600 at offset (0, 200).

  All of this holds for every extent, a zero height included: \<open>W / H\<close> is then infinite
  or not a number, and the comparison decides as \<^verbatim>\<open>float\<close> does.
\<close>

theorem recordCommandBuffer_letterbox_viewport:
  assumes "recordCommandBuffer b commandBuffer imageIndex s = (r, s', c)"
  shows "(let extent = m_swapChainExtent s;
              W = float_of_u32 (width extent);
              H = float_of_u32 (height extent);
              ratio = fdiv (Finite 4) (Finite 3);
              viewport = letterbox_viewport extent
          in (r = Inr () \<longleftrightarrow> beginCommandBuffer b = VK_SUCCESS
                \<and> unat imageIndex < length (m_swapChainFramebuffers s)
                \<and> endCommandBuffer b = VK_SUCCESS)
           \<and> (beginCommandBuffer b = VK_SUCCESS
                \<and> unat imageIndex < length (m_swapChainFramebuffers s) \<longrightarrow>
                c = [BeginCommandBuffer commandBuffer,
                     CmdBeginRenderPass commandBuffer (m_renderPass s)
                       (m_swapChainFramebuffers s ! unat imageIndex) extent,
                     CmdBindPipeline commandBuffer (m_graphicsPipeline s),
                     CmdSetViewport commandBuffer viewport,
                     CmdSetScissor commandBuffer extent, CmdDraw commandBuffer 3 1 0 0,
                     CmdEndRenderPass commandBuffer, EndCommandBuffer commandBuffer])
           \<and> (\<forall>cb v. CmdSetViewport cb v \<in> set c \<longrightarrow> cb = commandBuffer \<and> v = viewport)
           \<and> ratio = Finite (11184811 / 8388608)
           \<and> (unat (width extent) < 2 ^ 24 \<longrightarrow> W = Finite (of_nat (unat (width extent))))
           \<and> (unat (height extent) < 2 ^ 24 \<longrightarrow> H = Finite (of_nat (unat (height extent))))
           \<and> (unat (width extent) < 2 ^ 24 \<and> unat (height extent) \<le> 2 ^ 21 \<longrightarrow>
                (fgt (fdiv W H) ratio
                 \<longleftrightarrow> 4 * unat (height extent) < 3 * unat (width extent)))
           \<and> (fgt (fdiv W H) ratio \<longrightarrow>
                vp_width viewport = fmul H ratio \<and> vp_height viewport = H
                \<and> vp_y viewport = Finite 0)
           \<and> (\<not> fgt (fdiv W H) ratio \<longrightarrow>
                vp_width viewport = W \<and> vp_height viewport = fdiv W ratio
                \<and> vp_x viewport = Finite 0)
           \<and> (\<exists>w h vw vh.
                  W = Finite w \<and> H = Finite h
                \<and> vp_width viewport = Finite vw \<and> vp_height viewport = Finite vh
                \<and> (fgt (fdiv W H) ratio \<longrightarrow> vh = h \<and> \<bar>vw - h * (4 / 3)\<bar> \<le> h / 2 ^ 22)
                \<and> (\<not> fgt (fdiv W H) ratio \<longrightarrow> vw = w \<and> \<bar>vh - w / (4 / 3)\<bar> \<le> w / 2 ^ 22))
           \<and> vp_x viewport = fdiv (fsub W (vp_width viewport)) (Finite 2)
           \<and> vp_y viewport = fdiv (fsub H (vp_height viewport)) (Finite 2)
           \<and> vp_minDepth viewport = Finite 0 \<and> vp_maxDepth viewport = Finite 1
           \<and> (extent = \<lparr>width = 800, height = 600\<rparr> \<longrightarrow>
                viewport = \<lparr>vp_x = Finite 0, vp_y = Finite 0, vp_width = Finite 800,
                            vp_height = Finite 600, vp_minDepth = Finite 0,
                            vp_maxDepth = Finite 1\<rparr>)
           \<and> (extent = \<lparr>width = 1000, height = 600\<rparr> \<longrightarrow>
                viewport = \<lparr>vp_x = Finite 100, vp_y = Finite 0, vp_width = Finite 800,
                            vp_height = Finite 600, vp_minDepth = Finite 0,
                            vp_maxDepth = Finite 1\<rparr>)
           \<and> (extent = \<lparr>width = 800, height = 1000\<rparr> \<longrightarrow>
                viewport = \<lparr>vp_x = Finite 0, vp_y = Finite 200, vp_width = Finite 800,
                            vp_height = Finite 600, vp_minDepth = Finite 0,
                            vp_maxDepth = Finite 1\<rparr>))"
proof -
  note calls = recordCommandBuffer_viewport_calls[OF assms, unfolded record_calls_def]
  note cases = letterbox_viewport_cases[of "m_swapChainExtent s", unfolded Let_def]
  have c1: "m_swapChainExtent s = \<lparr>width = 800, height = 600\<rparr> \<longrightarrow>
      letterbox_viewport (m_swapChainExtent s) =
        \<lparr>vp_x = Finite 0, vp_y = Finite 0, vp_width = Finite 800,
         vp_height = Finite 600, vp_minDepth = Finite 0, vp_maxDepth = Finite 1\<rparr>"
    by (simp add: letterbox_viewport_800_600)
  have c2: "m_swapChainExtent s = \<lparr>width = 1000, height = 600\<rparr> \<longrightarrow>
      letterbox_viewport (m_swapChainExtent s) =
        \<lparr>vp_x = Finite 100, vp_y = Finite 0, vp_width = Finite 800,
         vp_height = Finite 600, vp_minDepth = Finite 0, vp_maxDepth = Finite 1\<rparr>"
    by (simp add: letterbox_viewport_1000_600)
  have c3: "m_swapChainExtent s = \<lparr>width = 800, height = 1000\<rparr> \<longrightarrow>
      letterbox_viewport (m_swapChainExtent s) =
        \<lparr>vp_x = Finite 0, vp_y = Finite 200, vp_width = Finite 800,
         vp_height = Finite 600, vp_minDepth = Finite 0, vp_maxDepth = Finite 1\<rparr>"
    by (simp add: letterbox_viewport_800_1000)
  have acc: "\<exists>w h vw vh.
      float_of_u32 (width (m_swapChainExtent s)) = Finite w
    \<and> float_of_u32 (height (m_swapChainExtent s)) = Finite h
    \<and> vp_width (letterbox_viewport (m_swapChainExtent s)) = Finite vw
    \<and> vp_height (letterbox_viewport (m_swapChainExtent s)) = Finite vh
    \<and> (fgt (fdiv (float_of_u32 (width (m_swapChainExtent s)))
                  (float_of_u32 (height (m_swapChainExtent s))))
             (fdiv (Finite 4) (Finite 3))
         \<longrightarrow> vh = h \<and> \<bar>vw - h * (4 / 3)\<bar> \<le> h / 2 ^ 22)
    \<and> (\<not> fgt (fdiv (float_of_u32 (width (m_swapChainExtent s)))
                    (float_of_u32 (height (m_swapChainExtent s))))
               (fdiv (Finite 4) (Finite 3))
         \<longrightarrow> vw = w \<and> \<bar>vh - w / (4 / 3)\<bar> \<le> w / 2 ^ 22)"
    using letterbox_viewport_accuracy[of "m_swapChainExtent s"]
    by (elim exE conjE) (intro exI conjI, simp_all only:)
  have br: "unat (width (m_swapChainExtent s)) < 2 ^ 24
      \<and> unat (height (m_swapChainExtent s)) \<le> 2 ^ 21 \<longrightarrow>
      (fgt (fdiv (float_of_u32 (width (m_swapChainExtent s)))
                 (float_of_u32 (height (m_swapChainExtent s))))
           (fdiv (Finite 4) (Finite 3))
       \<longleftrightarrow> 4 * unat (height (m_swapChainExtent s)) < 3 * unat (width (m_swapChainExtent s)))"
    using letterbox_branch[of "m_swapChainExtent s"] by blast
  have ex: "(unat (width (m_swapChainExtent s)) < 2 ^ 24 \<longrightarrow>
        float_of_u32 (width (m_swapChainExtent s))
          = Finite (of_nat (unat (width (m_swapChainExtent s)))))
      \<and> (unat (height (m_swapChainExtent s)) < 2 ^ 24 \<longrightarrow>
        float_of_u32 (height (m_swapChainExtent s))
          = Finite (of_nat (unat (height (m_swapChainExtent s)))))"
    using float_of_u32_exact by blast
  show ?thesis
    apply (unfold Let_def, intro conjI)
    subgoal using calls by blast
    subgoal using calls by blast
    subgoal using calls by blast
    subgoal by (rule target_ratio)
    subgoal using ex by blast
    subgoal using ex by blast
    subgoal by (rule br)
    subgoal using cases by blast
    subgoal using cases by blast
    subgoal by (rule acc)
    subgoal using cases by blast
    subgoal using cases by blast
    subgoal using cases by blast
    subgoal using cases by blast
    subgoal by (rule c1)
    subgoal by (rule c2)
    subgoal by (rule c3)
    done
qed

lemma example_ratios:
  "\<not> fgt (fdiv (float_of_u32 800) (float_of_u32 600)) (fdiv (Finite 4) (Finite 3))"
  "fgt (fdiv (float_of_u32 1000) (float_of_u32 600)) (fdiv (Finite 4) (Finite 3))"
  "\<not> fgt (fdiv (float_of_u32 800) (float_of_u32 1000)) (fdiv (Finite 4) (Finite 3))"
  unfolding float_of_u32_600 float_of_u32_800 float_of_u32_1000 target_ratio
  by code_simp+

text \<open>
  Witness of C6: the example renderer records with an extent of 800 x 600, of
  1000 x 600 and of 800 x 1000; only the second is wider than the ratio, and the
  viewport is 800 x 600 each time.
\<close>

theorem recordCommandBuffer_letterbox_viewport_witness:
  "recordCommandBuffer example_backend 51 1 example_renderer =
     (Inr (), example_renderer,
      [BeginCommandBuffer 51,
       CmdBeginRenderPass 51 40 32 \<lparr>width = 800, height = 600\<rparr>, CmdBindPipeline 51 42,
       CmdSetViewport 51
         \<lparr>vp_x = Finite 0, vp_y = Finite 0, vp_width = Finite 800, vp_height = Finite 600,
          vp_minDepth = Finite 0, vp_maxDepth = Finite 1\<rparr>,
       CmdSetScissor 51 \<lparr>width = 800, height = 600\<rparr>, CmdDraw 51 3 1 0 0,
       CmdEndRenderPass 51, EndCommandBuffer 51])
   \<and> unat (800 :: u32) < 2 ^ 24 \<and> unat (600 :: u32) \<le> 2 ^ 21
   \<and> \<not> fgt (fdiv (float_of_u32 800) (float_of_u32 600)) (fdiv (Finite 4) (Finite 3))
   \<and> \<not> 4 * unat (600 :: u32) < 3 * unat (800 :: u32)
   \<and> recordCommandBuffer example_backend 51 1
       (example_renderer\<lparr>m_swapChainExtent := \<lparr>width = 1000, height = 600\<rparr>\<rparr>) =
     (Inr (), example_renderer\<lparr>m_swapChainExtent := \<lparr>width = 1000, height = 600\<rparr>\<rparr>,
      [BeginCommandBuffer 51,
       CmdBeginRenderPass 51 40 32 \<lparr>width = 1000, height = 600\<rparr>, CmdBindPipeline 51 42,
       CmdSetViewport 51
         \<lparr>vp_x = Finite 100, vp_y = Finite 0, vp_width = Finite 800, vp_height = Finite 600,
          vp_minDepth = Finite 0, vp_maxDepth = Finite 1\<rparr>,
       CmdSetScissor 51 \<lparr>width = 1000, height = 600\<rparr>, CmdDraw 51 3 1 0 0,
       CmdEndRenderPass 51, EndCommandBuffer 51])
   \<and> unat (1000 :: u32) < 2 ^ 24 \<and> unat (600 :: u32) \<le> 2 ^ 21
   \<and> fgt (fdiv (float_of_u32 1000) (float_of_u32 600)) (fdiv (Finite 4) (Finite 3))
   \<and> 4 * unat (600 :: u32) < 3 * unat (1000 :: u32)
   \<and> recordCommandBuffer example_backend 51 1
       (example_renderer\<lparr>m_swapChainExtent := \<lparr>width = 800, height = 1000\<rparr>\<rparr>) =
     (Inr (), example_renderer\<lparr>m_swapChainExtent := \<lparr>width = 800, height = 1000\<rparr>\<rparr>,
      [BeginCommandBuffer 51,
       CmdBeginRenderPass 51 40 32 \<lparr>width = 800, height = 1000\<rparr>, CmdBindPipeline 51 42,
       CmdSetViewport 51
         \<lparr>vp_x = Finite 0, vp_y = Finite 200, vp_width = Finite 800, vp_height = Finite 600,
          vp_minDepth = Finite 0, vp_maxDepth = Finite 1\<rparr>,
       CmdSetScissor 51 \<lparr>width = 800, height = 1000\<rparr>, CmdDraw 51 3 1 0 0,
       CmdEndRenderPass 51, EndCommandBuffer 51])
   \<and> unat (800 :: u32) < 2 ^ 24 \<and> unat (1000 :: u32) \<le> 2 ^ 21
   \<and> \<not> fgt (fdiv (float_of_u32 800) (float_of_u32 1000)) (fdiv (Finite 4) (Finite 3))
   \<and> \<not> 4 * unat (1000 :: u32) < 3 * unat (800 :: u32)
   \<and> beginCommandBuffer example_backend = VK_SUCCESS
   \<and> endCommandBuffer example_backend = VK_SUCCESS
   \<and> unat (1 :: u32) < length (m_swapChainFramebuffers example_renderer)
   \<and> \<bar>800 - 600 * (4 / 3 :: rat)\<bar> \<le> 600 / 2 ^ 22
   \<and> \<bar>600 - 800 / (4 / 3 :: rat)\<bar> \<le> 800 / 2 ^ 22"
proof -
  have e1:
    "recordCommandBuffer example_backend 51 1 example_renderer =
       (Inr (), example_renderer,
        [BeginCommandBuffer 51,
         CmdBeginRenderPass 51 40 32 \<lparr>width = 800, height = 600\<rparr>, CmdBindPipeline 51 42,
         CmdSetViewport 51
           \<lparr>vp_x = Finite 0, vp_y = Finite 0, vp_width = Finite 800, vp_height = Finite 600,
            vp_minDepth = Finite 0, vp_maxDepth = Finite 1\<rparr>,
         CmdSetScissor 51 \<lparr>width = 800, height = 600\<rparr>, CmdDraw 51 3 1 0 0,
         CmdEndRenderPass 51, EndCommandBuffer 51])"
    by (simp add: recordCommandBuffer_exec example_backend_def example_renderer_def
        VK_SUCCESS_def letterbox_viewport_800_600)
  have e2:
    "recordCommandBuffer example_backend 51 1
         (example_renderer\<lparr>m_swapChainExtent := \<lparr>width = 1000, height = 600\<rparr>\<rparr>) =
       (Inr (), example_renderer\<lparr>m_swapChainExtent := \<lparr>width = 1000, height = 600\<rparr>\<rparr>,
        [BeginCommandBuffer 51,
         CmdBeginRenderPass 51 40 32 \<lparr>width = 1000, height = 600\<rparr>, CmdBindPipeline 51 42,
         CmdSetViewport 51
           \<lparr>vp_x = Finite 100, vp_y = Finite 0, vp_width = Finite 800, vp_height = Finite 600,
            vp_minDepth = Finite 0, vp_maxDepth = Finite 1\<rparr>,
         CmdSetScissor 51 \<lparr>width = 1000, height = 600\<rparr>, CmdDraw 51 3 1 0 0,
         CmdEndRenderPass 51, EndCommandBuffer 51])"
    by (simp add: recordCommandBuffer_exec example_backend_def example_renderer_def
        VK_SUCCESS_def letterbox_viewport_1000_600)
  have e3:
    "recordCommandBuffer example_backend 51 1
         (example_renderer\<lparr>m_swapChainExtent := \<lparr>width = 800, height = 1000\<rparr>\<rparr>) =
       (Inr (), example_renderer\<lparr>m_swapChainExtent := \<lparr>width = 800, height = 1000\<rparr>\<rparr>,
        [BeginCommandBuffer 51,
         CmdBeginRenderPass 51 40 32 \<lparr>width = 800, height = 1000\<rparr>, CmdBindPipeline 51 42,
         CmdSetViewport 51
           \<lparr>vp_x = Finite 0, vp_y = Finite 200, vp_width = Finite 800, vp_height = Finite 600,
            vp_minDepth = Finite 0, vp_maxDepth = Finite 1\<rparr>,
         CmdSetScissor 51 \<lparr>width = 800, height = 1000\<rparr>, CmdDraw 51 3 1 0 0,
         CmdEndRenderPass 51, EndCommandBuffer 51])"
    by (simp add: recordCommandBuffer_exec example_backend_def example_renderer_def
        VK_SUCCESS_def letterbox_viewport_800_1000)
  from recordCommandBuffer_letterbox_viewport[OF e1] recordCommandBuffer_letterbox_viewport[OF e2]
    recordCommandBuffer_letterbox_viewport[OF e3] e1 e2 e3 example_ratios
  show ?thesis by (simp add: example_backend_def example_renderer_def VK_SUCCESS_def)
qed

section \<open>The aborted frame\<close>

text \<open>
  Claim C1. When the acquire reports the chain out of date (and the frame slot's fence
  and semaphore exist), \<open>drawFrame\<close> makes exactly the fence wait, the acquire and the
  calls of \<open>recreateSwapChain\<close>; it ends as the recreation ends (an early return, or the
  recreation's exception), never as a completed frame. No fence is reset and nothing is
  submitted, \<open>m_currentFrame\<close> and the fences are unchanged, and the next \<open>drawFrame\<close>
  starts by waiting on the same fence of the same slot.
\<close>

theorem drawFrame_stale_acquire_aborts:
  assumes stale: "fst (acquireNextImageKHR b) = VK_ERROR_OUT_OF_DATE_KHR"
      and fence: "unat (m_currentFrame s) < length (m_inFlightFences s)"
      and sem: "unat (m_currentFrame s) < length (m_imageAvailableSemaphores s)"
      and df: "drawFrame b s = (r, s', calls)"
  shows "calls = WaitForFences (m_inFlightFences s ! unat (m_currentFrame s))
               # AcquireNextImageKHR (m_swapChain s)
                   (m_imageAvailableSemaphores s ! unat (m_currentFrame s))
               # snd (snd (recreateSwapChain b s))
     \<and> r = map_sum id (\<lambda>_. Frame_aborted) (fst (recreateSwapChain b s))
     \<and> r \<noteq> Inr Frame_completed
     \<and> (\<forall>f. ResetFences f \<notin> set calls)
     \<and> (\<forall>q w cb sg f. QueueSubmit q w cb sg f \<notin> set calls)
     \<and> m_currentFrame s' = m_currentFrame s
     \<and> m_inFlightFences s' = m_inFlightFences s
     \<and> (\<forall>b'. \<exists>rest. snd (snd (drawFrame b' s'))
            = WaitForFences (m_inFlightFences s ! unat (m_currentFrame s)) # rest)"
proof -
  obtain r0 s0 c0 where rc: "recreateSwapChain b s = (r0, s0, c0)"
    by (cases "recreateSwapChain b s")
  from drawFrame_stale[OF stale fence sem] df rc
  have r: "r = map_sum id (\<lambda>_. Frame_aborted) r0" and s': "s' = s0"
    and calls: "calls = WaitForFences (m_inFlightFences s ! unat (m_currentFrame s))
               # AcquireNextImageKHR (m_swapChain s)
                   (m_imageAvailableSemaphores s ! unat (m_currentFrame s)) # c0"
    by simp_all
  note keep = recreate_keeps[OF rc]
  note kind = recreateSwapChain_calls_kind[OF rc]
  have nc: "r \<noteq> Inr Frame_completed" unfolding r by (cases r0) simp_all
  have nxt: "\<exists>rest. snd (snd (drawFrame b' s'))
            = WaitForFences (m_inFlightFences s ! unat (m_currentFrame s)) # rest" for b'
    using drawFrame_first_call[of s' b'] keep fence unfolding s' by simp
  show ?thesis
    using r calls rc nc keep kind nxt unfolding s' by simp
qed

lemma drawFrame_stale_example:
  "drawFrame stale_backend example_renderer
     = (Inr Frame_aborted, example_recreated, example_aborted_calls)"
  by (simp add: eval_simps example_aborted_calls_def)

text \<open>
  Witness of C1: the example renderer meets an out-of-date acquire in slot 0; the frame
  is aborted with the chain rebuilt, slot 0 is still current and no fence was reset.
\<close>

theorem drawFrame_stale_acquire_aborts_witness:
  "fst (acquireNextImageKHR stale_backend) = VK_ERROR_OUT_OF_DATE_KHR
   \<and> unat (m_currentFrame example_renderer) < length (m_inFlightFences example_renderer)
   \<and> unat (m_currentFrame example_renderer)
       < length (m_imageAvailableSemaphores example_renderer)
   \<and> drawFrame stale_backend example_renderer
       = (Inr Frame_aborted, example_recreated, example_aborted_calls)
   \<and> m_currentFrame example_recreated = m_currentFrame example_renderer
   \<and> m_inFlightFences example_recreated = m_inFlightFences example_renderer
   \<and> (\<forall>f. ResetFences f \<notin> set example_aborted_calls)"
proof -
  have stale: "fst (acquireNextImageKHR stale_backend) = VK_ERROR_OUT_OF_DATE_KHR"
    by (simp add: stale_backend_def)
  have fence: "unat (m_currentFrame example_renderer) < length (m_inFlightFences example_renderer)"
    by (simp add: example_renderer_def)
  have sem: "unat (m_currentFrame example_renderer)
       < length (m_imageAvailableSemaphores example_renderer)"
    by (simp add: example_renderer_def)
  from drawFrame_stale_acquire_aborts[OF stale fence sem drawFrame_stale_example]
  show ?thesis using stale fence sem drawFrame_stale_example by simp
qed

section \<open>The frame counter\<close>

lemma advance_mod:
  fixes cf :: u32
  assumes "unat cf < N" and "N \<le> 2 ^ 32"
  shows "unat (of_nat (unat (cf + 1) mod N) :: u32) = (unat cf + 1) mod N"
proof (cases "unat cf + 1 < 2 ^ 32")
  case True
  then have "unat (cf + 1) = unat cf + 1"
    by (simp add: unat_word_ariths)
  moreover have "(unat cf + 1) mod N < 2 ^ 32"
  proof -
    have "0 < N" using assms(1) by simp
    then have "(unat cf + 1) mod N < N" by (rule mod_less_divisor)
    with assms(2) show ?thesis by simp
  qed
  ultimately show ?thesis
    by (simp add: unat_of_nat take_bit_nat_eq_self)
next
  case False
  have "unat cf < 2 ^ 32" using unsigned_less[of cf] by simp
  with False have cf: "unat cf + 1 = 2 ^ 32" by simp
  with assms have N: "N = 2 ^ 32" by simp
  from cf have "unat (cf + 1) = 0"
    by (simp add: unat_word_ariths)
  with cf N show ?thesis by simp
qed

lemma handleEvents_renderer:
  "m_commandBuffers (m_renderer (handleEvents evs app)) = m_commandBuffers (m_renderer app)
   \<and> m_currentFrame (m_renderer (handleEvents evs app)) = m_currentFrame (m_renderer app)"
  by (induction evs arbitrary: app) (auto simp: setFramebufferResized_def split: SDL_Event.splits)

lemma drawFrame_advance:
  assumes "drawFrame b s = (r, s', c)"
      and "unat (m_currentFrame s) < length (m_commandBuffers s)"
      and "length (m_commandBuffers s) \<le> 2 ^ 32"
  shows "m_commandBuffers s' = m_commandBuffers s
     \<and> unat (m_currentFrame s') =
         (if r = Inr Frame_completed
          then (unat (m_currentFrame s) + 1) mod length (m_commandBuffers s)
          else unat (m_currentFrame s))"
  using drawFrame_currentFrame[OF assms(1)] advance_mod[OF assms(2,3)] by simp

lemma run_loop_currentFrame:
  assumes "run_loop inputs app = (e, app', frames)"
      and "unat (m_currentFrame (m_renderer app)) < length (m_commandBuffers (m_renderer app))"
      and "length (m_commandBuffers (m_renderer app)) \<le> 2 ^ 32"
  shows "m_commandBuffers (m_renderer app') = m_commandBuffers (m_renderer app)
     \<and> unat (m_currentFrame (m_renderer app')) =
         (unat (m_currentFrame (m_renderer app)) + count_list frames Frame_completed)
           mod length (m_commandBuffers (m_renderer app))"
  using assms
proof (induction inputs arbitrary: app e app' frames)
  case Nil
  then show ?case by simp
next
  case (Cons input inputs)
  obtain events b where input: "input = (events, b)" by (cases input)
  define app1 where "app1 = handleEvents events app"
  have h: "m_commandBuffers (m_renderer app1) = m_commandBuffers (m_renderer app)"
          "m_currentFrame (m_renderer app1) = m_currentFrame (m_renderer app)"
    using handleEvents_renderer[of events app] by (simp_all add: app1_def)
  show ?case
  proof (cases "m_isRunning app")
    case False
    with Cons.prems input show ?thesis by simp
  next
    case True
    show ?thesis
    proof (cases "m_isMinimized app1")
      case min: True
      with True Cons.prems input have "run_loop inputs app1 = (e, app', frames)"
        by (simp add: app1_def Let_def)
      from Cons.IH[OF this] Cons.prems(2,3) h show ?thesis by simp
    next
      case nomin: False
      obtain r s c where df: "drawFrame b (m_renderer app1) = (r, s, c)"
        by (cases "drawFrame b (m_renderer app1)")
      note adv = drawFrame_advance[OF df]
      show ?thesis
      proof (cases r)
        case (Inl err)
        with True nomin df Cons.prems(1) input
        have "app' = app1\<lparr>m_renderer := s\<rparr>" "frames = []"
          by (simp_all add: app1_def Let_def)
        with adv Cons.prems(2,3) h Inl show ?thesis by simp
      next
        case (Inr frame)
        obtain e2 app2 frames2 where rl: "run_loop inputs (app1\<lparr>m_renderer := s\<rparr>) = (e2, app2, frames2)"
          by (cases "run_loop inputs (app1\<lparr>m_renderer := s\<rparr>)")
        with True nomin df Cons.prems(1) input Inr
        have res: "app' = app2" "frames = frame # frames2"
          by (simp_all add: app1_def Let_def)
        have a: "m_commandBuffers s = m_commandBuffers (m_renderer app)"
          and b: "unat (m_currentFrame s) =
            (if frame = Frame_completed
             then (unat (m_currentFrame (m_renderer app)) + 1) mod length (m_commandBuffers (m_renderer app))
             else unat (m_currentFrame (m_renderer app)))"
          using adv Cons.prems(2,3) h Inr by simp_all
        have pos: "0 < length (m_commandBuffers (m_renderer app))"
          using Cons.prems(2) by (cases "m_commandBuffers (m_renderer app)") simp_all
        have lt: "unat (m_currentFrame s) < length (m_commandBuffers s)"
          using a b Cons.prems(2) mod_less_divisor[OF pos] by simp
        from Cons.IH[OF rl] lt a Cons.prems(3)
        have IH: "m_commandBuffers (m_renderer app2) = m_commandBuffers (m_renderer app)"
          "unat (m_currentFrame (m_renderer app2)) =
            (unat (m_currentFrame s) + count_list frames2 Frame_completed)
               mod length (m_commandBuffers (m_renderer app))"
          by simp_all
        show ?thesis
          using IH b res by (simp add: mod_add_left_eq add.assoc add.left_commute)
      qed
    qed
  qed
qed

text \<open>
  Claim C3. Let \<open>N\<close> be the number of command buffers, at most \<open>2^32\<close>, and let the loop
  start with \<open>m_currentFrame\<close> below \<open>N\<close>. After any run of the host loop,
  \<open>m_currentFrame\<close> is its initial value plus the number of frames that \<open>drawFrame\<close>
  completed, modulo \<open>N\<close>: frames that were aborted or that threw, iterations that did
  not render and events do not count. After \<open>N\<close> completed frames it is back at its
  initial value. For a single \<open>drawFrame\<close>: a completed frame advances it by 1 modulo
  \<open>N\<close>, and any other outcome leaves it unchanged.
\<close>

theorem currentFrame_counts_completed_frames:
  assumes "run_loop inputs app = (e, app', frames)"
      and "unat (m_currentFrame (m_renderer app)) < length (m_commandBuffers (m_renderer app))"
      and "length (m_commandBuffers (m_renderer app)) \<le> 2 ^ 32"
  shows "unat (m_currentFrame (m_renderer app')) =
           (unat (m_currentFrame (m_renderer app)) + count_list frames Frame_completed)
             mod length (m_commandBuffers (m_renderer app))
     \<and> (count_list frames Frame_completed = length (m_commandBuffers (m_renderer app)) \<longrightarrow>
          m_currentFrame (m_renderer app') = m_currentFrame (m_renderer app))
     \<and> (\<forall>b r s' c. drawFrame b (m_renderer app) = (r, s', c) \<longrightarrow>
          unat (m_currentFrame s') =
            (if r = Inr Frame_completed
             then (unat (m_currentFrame (m_renderer app)) + 1)
                    mod length (m_commandBuffers (m_renderer app))
             else unat (m_currentFrame (m_renderer app))))"
proof -
  note rl = run_loop_currentFrame[OF assms]
  have "count_list frames Frame_completed = length (m_commandBuffers (m_renderer app)) \<Longrightarrow>
          m_currentFrame (m_renderer app') = m_currentFrame (m_renderer app)"
  proof -
    assume "count_list frames Frame_completed = length (m_commandBuffers (m_renderer app))"
    with rl assms(2) have "unat (m_currentFrame (m_renderer app')) = unat (m_currentFrame (m_renderer app))"
      by simp
    then show ?thesis by (rule word_unat_eq_iff[THEN iffD2])
  qed
  moreover have "drawFrame b (m_renderer app) = (r, s', c) \<Longrightarrow>
          unat (m_currentFrame s') =
            (if r = Inr Frame_completed
             then (unat (m_currentFrame (m_renderer app)) + 1)
                    mod length (m_commandBuffers (m_renderer app))
             else unat (m_currentFrame (m_renderer app)))" for b r s' c
    using drawFrame_advance[OF _ assms(2,3)] by blast
  ultimately show ?thesis using rl by blast
qed

lemma run_loop_example:
  "run_loop example_inputs example_app
     = (None, \<lparr>m_isMinimized = False, m_isRunning = False, m_renderer = example_recreated\<rparr>,
        [Frame_completed, Frame_aborted, Frame_completed, Frame_completed])"
  by (simp add: example_inputs_def example_app_def eval_simps)

text \<open>
  Witness of C3: the example application has three frame slots; four frames are drawn,
  one of them aborted, so three are completed and \<open>m_currentFrame\<close> is 0 again.
\<close>

theorem currentFrame_counts_completed_frames_witness:
  "run_loop example_inputs example_app
     = (None, \<lparr>m_isMinimized = False, m_isRunning = False, m_renderer = example_recreated\<rparr>,
        [Frame_completed, Frame_aborted, Frame_completed, Frame_completed])
   \<and> unat (m_currentFrame (m_renderer example_app))
       < length (m_commandBuffers (m_renderer example_app))
   \<and> length (m_commandBuffers (m_renderer example_app)) \<le> 2 ^ 32
   \<and> count_list [Frame_completed, Frame_aborted, Frame_completed, Frame_completed]
         Frame_completed = length (m_commandBuffers (m_renderer example_app))
   \<and> m_currentFrame example_recreated = m_currentFrame (m_renderer example_app)"
proof -
  have lt: "unat (m_currentFrame (m_renderer example_app))
       < length (m_commandBuffers (m_renderer example_app))"
    by (simp add: example_app_def example_renderer_def)
  have le: "length (m_commandBuffers (m_renderer example_app)) \<le> 2 ^ 32"
    by (simp add: example_app_def example_renderer_def)
  have n: "count_list [Frame_completed, Frame_aborted, Frame_completed, Frame_completed]
         Frame_completed = length (m_commandBuffers (m_renderer example_app))"
    by (simp add: example_app_def example_renderer_def)
  from currentFrame_counts_completed_frames[OF run_loop_example lt le]
  show ?thesis using lt le n run_loop_example by simp
qed

section \<open>The resize flag\<close>

lemma drawFrame_stale_flag:
  assumes "fst (acquireNextImageKHR b) = VK_ERROR_OUT_OF_DATE_KHR"
      and "drawFrame b s = (r, s', c)"
  shows "m_framebufferResized s' = m_framebufferResized s"
proof -
  have ab: "then_do (recreateSwapChain b t) (\<lambda>_. returns Frame_aborted) = (r, s', c') \<Longrightarrow>
      c' = snd (snd (recreateSwapChain b t)) \<and> m_framebufferResized s' = m_framebufferResized t" for t c'
    apply (rule then_do_recreate)
      apply assumption
     apply (simp add: returns_def)
    apply (simp add: returns_def)
    done
  from assms show ?thesis
    unfolding drawFrame_exec Let_def
    by (auto simp: after_calls_eq split: if_splits dest!: ab)
qed

text \<open>
  Claim C10. Let the resize flag be written by \<open>setFramebufferResized\<close> and the next
  frame be aborted at an out-of-date acquire: the flag still has the value written, so
  the abort neither reads nor clears it. If that value is true, the next frame that
  reaches \<^verbatim>\<open>vkQueuePresentKHR\<close> clears the flag and, right after presenting, makes the
  calls of \<open>recreateSwapChain\<close>, whatever the present call returned.
\<close>

theorem resize_flag_survives_aborted_frame:
  assumes "fst (acquireNextImageKHR b1) = VK_ERROR_OUT_OF_DATE_KHR"
      and "drawFrame b1 (setFramebufferResized resized s) = (r1, s1, calls1)"
      and "drawFrame b2 s1 = (r2, s2, calls2)"
      and "QueuePresentKHR q w sc i \<in> set calls2"
  shows "m_framebufferResized s1 = resized
     \<and> (resized \<longrightarrow>
          \<not> m_framebufferResized s2
          \<and> (\<exists>before. calls2 = before @ QueuePresentKHR q w sc i
                # snd (snd (recreateSwapChain b2 (s1\<lparr>m_framebufferResized := False\<rparr>)))))"
  using drawFrame_stale_flag[OF assms(1,2)] drawFrame_presented[OF assms(3,4)]
  by (simp add: setFramebufferResized_def)

lemma drawFrame_resized_stale_example:
  "drawFrame stale_backend example_resized
     = (Inr Frame_aborted, example_resized_aborted, example_aborted_calls)"
  by (simp add: eval_simps example_aborted_calls_def example_resized_def
        example_resized_aborted_def)

lemma drawFrame_resized_presented_example:
  "drawFrame example_backend example_resized_aborted
     = (Inr Frame_completed, example_presented, example_presented_calls)"
  by (simp add: eval_simps example_resized_aborted_def example_presented_def
        example_presented_calls_def)

text \<open>
  Witness of C10: the resize flag is set on the example renderer, the next frame is
  aborted and keeps the flag, and the frame after it presents, clears the flag and
  rebuilds the chain although the present call succeeded.
\<close>

theorem resize_flag_survives_aborted_frame_witness:
  "fst (acquireNextImageKHR stale_backend) = VK_ERROR_OUT_OF_DATE_KHR
   \<and> m_framebufferResized example_resized
   \<and> drawFrame stale_backend example_resized
       = (Inr Frame_aborted, example_resized_aborted, example_aborted_calls)
   \<and> m_framebufferResized example_resized_aborted
   \<and> drawFrame example_backend example_resized_aborted
       = (Inr Frame_completed, example_presented, example_presented_calls)
   \<and> QueuePresentKHR 7 71 110 1 \<in> set example_presented_calls
   \<and> queuePresentKHR example_backend = VK_SUCCESS
   \<and> \<not> m_framebufferResized example_presented"
proof -
  have stale: "fst (acquireNextImageKHR stale_backend) = VK_ERROR_OUT_OF_DATE_KHR"
    by (simp add: stale_backend_def)
  have present: "QueuePresentKHR 7 71 110 1 \<in> set example_presented_calls"
    by (simp add: example_presented_calls_def)
  have flag: "m_framebufferResized example_resized"
    by (simp add: example_resized_def setFramebufferResized_def)
  have ok: "queuePresentKHR example_backend = VK_SUCCESS"
    by (simp add: example_backend_def VK_SUCCESS_def)
  from resize_flag_survives_aborted_frame[OF stale
      drawFrame_resized_stale_example[unfolded example_resized_def]
      drawFrame_resized_presented_example present]
  show ?thesis
    using stale present flag ok drawFrame_resized_stale_example
      drawFrame_resized_presented_example
    by simp
qed

section \<open>Shutting down twice\<close>

text \<open>
  Claim C4 does not hold of the code. \<open>cleanup\<close> tests \<open>m_initialized\<close> only after it
  has called \<^verbatim>\<open>vkDeviceWaitIdle\<close> on \<open>m_device\<close>: on a renderer that is not initialized
  (never completely initialized, or already cleaned up) it still makes that one call on
  the device handle.
\<close>

theorem cleanup_waits_before_guard:
  "\<not> m_initialized s \<Longrightarrow> cleanup v s = (Inr (), s, [DeviceWaitIdle (m_device s)])"
  by (simp add: cleanup_def exec)

lemma cleanup_example:
  "cleanup True example_renderer = (Inr (), example_cleaned, example_cleanup_calls)"
  by (simp add: cleanup_def then_do_def vk_def returns_def cleanupSwapChain_def
        example_renderer_def example_cleaned_def example_cleanup_calls_def)

text \<open>
  The failing input of C4: the first \<open>cleanup\<close> of the example renderer destroys
  device 5; a second \<open>cleanup\<close> waits on device 5 again.
\<close>

theorem cleanup_waits_before_guard_witness:
  "cleanup True example_renderer = (Inr (), example_cleaned, example_cleanup_calls)
   \<and> DestroyDevice 5 \<in> set example_cleanup_calls
   \<and> \<not> m_initialized example_cleaned
   \<and> cleanup True example_cleaned = (Inr (), example_cleaned, [DeviceWaitIdle 5])"
proof -
  have off: "\<not> m_initialized example_cleaned"
    by (simp add: example_cleaned_def)
  from cleanup_waits_before_guard[OF off, of True]
  show ?thesis
    using off cleanup_example
    by (simp add: example_cleanup_calls_def) (simp add: example_cleaned_def example_renderer_def)
qed

end
